theory Spec2Isabelle
  imports Complex_Main "HOL-Library.Sublist" "HOL-Library.Multiset"
begin

text \<open>
  The dynamics nodes of SoundFlow (\<open>nodes.py\<close>: the compressor and the ducking
  compressor) and the library manager they share (\<open>libeffects.py\<close>), with the shared
  library they call as a parameter.
\<close>

section \<open>Data model\<close>

text \<open>
  A sample is a float32 value; its arithmetic is idealised to the reals (rounding is not
  modelled). A waveform tensor has the layout [batch][channel][sample] and is kept as a
  nested list. A torch tensor is rectangular, so \<open>shape[1]\<close> is the length of every batch
  element: the channel range of batch element \<open>b\<close> is read from that element.
\<close>

type_synonym sample = real

type_synonym tensor = "sample list list list"

text \<open>
  The AUDIO dictionary of the host: \<open>waveform\<close> is a reference to a tensor object (an
  address of the store below), \<open>sample_rate\<close> an integer.
\<close>

record audio =
  waveform :: nat
  sample_rate :: int

text \<open>The seven float arguments of the compressor node, passed on unchanged.\<close>

record compressor_params =
  threshold_db :: real
  ratio :: real
  attack_ms :: real
  release_ms :: real
  knee_db :: real
  makeup_gain_db :: real
  mix :: real

text \<open>The six float arguments of the ducking node, passed on unchanged.\<close>

record ducking_params =
  main_gain_db :: real
  sidechain_gain_db :: real
  duck_threshold_db :: real
  reduction_db :: real
  duck_attack_ms :: real
  duck_release_ms :: real

text \<open>
  \<open>ProcessingResult\<close> (libeffects.py, lines 24-29): \<open>audio_ptr\<close> is a raw pointer, read as
  the memory cell at each offset; \<open>length\<close> and \<open>sample_rate\<close> are C ints.
\<close>

record ProcessingResult =
  audio_ptr :: "nat \<Rightarrow> sample"
  length_res :: int
  sample_rate_res :: int

text \<open>
  The shared library, with the three functions whose signatures
  \<open>_setup_function_signatures\<close> declares. The library itself is not part of the
  repository, so each function is a parameter; \<open>'s\<close> is whatever state the library keeps.
  \<^item> \<open>ProcessCompressor\<close> (waveform, length, sample rate, parameters) writes into the
    caller's buffer and returns nothing: it yields the new value of each cell, the
    buffer's size being the caller's.
  \<^item> \<open>ProcessDucking\<close> (main buffer, length, rate, sidechain buffer, length, rate,
    parameters) reads its two buffers, leaves them as they are, and returns a pointer to
    a new \<open>ProcessingResult\<close>, or NULL (\<open>None\<close>).
  \<^item> \<open>FreeProcessingResult\<close> releases one result.
  The conversions \<open>c_int\<close> and \<open>c_float\<close> of the scalar arguments are part of these
  functions.
\<close>

record 's cdll =
  ProcessCompressor ::
    "'s \<Rightarrow> sample list \<Rightarrow> int \<Rightarrow> int \<Rightarrow> compressor_params \<Rightarrow> (nat \<Rightarrow> sample) \<times> 's"
  ProcessDucking ::
    "'s \<Rightarrow> sample list \<Rightarrow> int \<Rightarrow> int \<Rightarrow> sample list \<Rightarrow> int \<Rightarrow> int \<Rightarrow> ducking_params
      \<Rightarrow> ProcessingResult option \<times> 's"
  FreeProcessingResult :: "'s \<Rightarrow> ProcessingResult \<Rightarrow> 's"

text \<open>The fields of \<open>SoundFlowLibraryManager\<close> set by \<open>__init__\<close>.\<close>

record 's SoundFlowLibraryManager =
  lib_base_name :: string
  lib :: "'s cdll option"
  loaded :: bool

text \<open>
  The calls that reach the shared library, in order. A compressor call is recorded with
  the buffer before and after it; a ducking call with its buffers and what it returned:
  nothing for NULL, otherwise the pointer (a result pointer is named by its allocation
  number), the \<open>length\<close> field of the struct and the samples readable through it.
\<close>

datatype event =
    ProcessCompressor_call "sample list" int int compressor_params "sample list"
  | ProcessDucking_call "sample list" int int "sample list" int int ducking_params
      "(nat \<times> int \<times> sample list) option"
  | FreeProcessingResult_call nat

text \<open>
  The state outside the nodes: the tensor objects by address (\<open>n_tensors\<close> is the next
  free address), the library's own state, the results the library has allocated and not
  yet freed, the number of results allocated so far, and the calls made.
\<close>

record 's world =
  tensors :: "nat \<Rightarrow> tensor"
  n_tensors :: nat
  engine :: 's
  live_results :: "nat list"
  n_results :: nat
  trace :: "event list"

section \<open>libeffects.py\<close>

definition init_manager :: "string \<Rightarrow> 's SoundFlowLibraryManager" where
  "init_manager base = \<lparr>lib_base_name = base, lib = None, loaded = False\<rparr>"

text \<open>
  What \<open>load_library\<close> reads from its surroundings: \<open>os.name\<close>, \<open>platform.system()\<close>, the
  directory of the script, \<open>os.path.join\<close>, \<open>os.path.exists\<close>, \<open>ctypes.CDLL\<close>
  (\<open>None\<close> when it raises), and whether the loaded object exports the three functions
  (\<open>_setup_function_signatures\<close> raises when one is missing).
\<close>

record 's platform =
  os_name :: string
  platform_system :: string
  script_dir :: string
  path_join :: "string \<Rightarrow> string \<Rightarrow> string"
  path_exists :: "string \<Rightarrow> bool"
  CDLL :: "string \<Rightarrow> 's cdll option"
  has_symbols :: "'s cdll \<Rightarrow> bool"

definition lib_names :: "'s platform \<Rightarrow> string \<Rightarrow> string list option" where
  "lib_names env base =
     (if os_name env = ''nt'' then Some [base @ ''.dll'', ''lib'' @ base @ ''.dll'']
      else if os_name env = ''posix'' then
        (if platform_system env = ''Darwin'' then Some [''lib'' @ base @ ''.dylib'']
         else Some [''lib'' @ base @ ''.so''])
      else None)"

text \<open>The loop over the candidate names: the first path that exists and loads.\<close>

fun try_names :: "'s platform \<Rightarrow> string list \<Rightarrow> 's cdll option" where
  "try_names env [] = None"
| "try_names env (lib_name # rest) =
     (let lib_path = path_join env (script_dir env) lib_name
      in if path_exists env lib_path then
           (case CDLL env lib_path of
              Some l \<Rightarrow> Some l
            | None \<Rightarrow> try_names env rest)
         else try_names env rest)"

text \<open>
  \<open>load_library\<close>: every exception ends in \<open>loaded = False\<close>, return value \<open>False\<close>.
  When the signatures cannot be set up, \<open>self.lib\<close> has already been assigned.
\<close>

definition load_library ::
  "'s platform \<Rightarrow> 's SoundFlowLibraryManager \<Rightarrow> bool \<times> 's SoundFlowLibraryManager" where
  "load_library env m =
     (case lib_names env (lib_base_name m) of
        None \<Rightarrow> (False, m\<lparr>loaded := False\<rparr>)
      | Some names \<Rightarrow>
          (case try_names env names of
             None \<Rightarrow> (False, m\<lparr>loaded := False\<rparr>)
           | Some l \<Rightarrow>
               if has_symbols env l then (True, m\<lparr>lib := Some l, loaded := True\<rparr>)
               else (False, m\<lparr>lib := Some l, loaded := False\<rparr>)))"

text \<open>The buffer after a native call that writes into it: same cells, new values.\<close>

definition inplace :: "(nat \<Rightarrow> sample) \<Rightarrow> sample list \<Rightarrow> sample list" where
  "inplace f buf = map f [0..<length buf]"

definition process_compressor ::
  "'s SoundFlowLibraryManager \<Rightarrow> sample list \<Rightarrow> int \<Rightarrow> int \<Rightarrow> compressor_params \<Rightarrow> 's world
    \<Rightarrow> bool \<times> sample list \<times> 's world" where
  "process_compressor m buf len sr p w =
     (case lib m of
        None \<Rightarrow> (False, buf, w)
      | Some l \<Rightarrow>
          if \<not> loaded m then (False, buf, w)
          else
            (case ProcessCompressor l (engine w) buf len sr p of
               (f, s') \<Rightarrow>
                 (True, inplace f buf,
                  w\<lparr>engine := s',
                    trace := trace w @ [ProcessCompressor_call buf len sr p (inplace f buf)]\<rparr>)))"

text \<open>The samples that \<open>length\<close> makes readable through \<open>audio_ptr\<close>.\<close>

definition result_data :: "ProcessingResult \<Rightarrow> sample list" where
  "result_data res = map (audio_ptr res) [0..<nat (length_res res)]"

text \<open>
  \<open>process_ducking\<close> returns the result pointer: \<open>None\<close> (not loaded, or NULL from the
  library), or the new result's allocation number with the struct it points to.
\<close>

definition process_ducking ::
  "'s SoundFlowLibraryManager \<Rightarrow> sample list \<Rightarrow> int \<Rightarrow> int \<Rightarrow> sample list \<Rightarrow> int \<Rightarrow> int
    \<Rightarrow> ducking_params \<Rightarrow> 's world \<Rightarrow> (nat \<times> ProcessingResult) option \<times> 's world" where
  "process_ducking m main_buf main_length main_sr sc_buf sc_length sc_sr p w =
     (case lib m of
        None \<Rightarrow> (None, w)
      | Some l \<Rightarrow>
          if \<not> loaded m then (None, w)
          else
            (case ProcessDucking l (engine w) main_buf main_length main_sr
                    sc_buf sc_length sc_sr p of
               (None, s') \<Rightarrow>
                 (None,
                  w\<lparr>engine := s',
                    trace := trace w @
                      [ProcessDucking_call main_buf main_length main_sr
                         sc_buf sc_length sc_sr p None]\<rparr>)
             | (Some res, s') \<Rightarrow>
                 (Some (n_results w, res),
                  w\<lparr>engine := s',
                    live_results := live_results w @ [n_results w],
                    n_results := Suc (n_results w),
                    trace := trace w @
                      [ProcessDucking_call main_buf main_length main_sr
                         sc_buf sc_length sc_sr p
                         (Some (n_results w, length_res res, result_data res))]\<rparr>)))"

definition free_processing_result ::
  "'s SoundFlowLibraryManager \<Rightarrow> (nat \<times> ProcessingResult) option \<Rightarrow> 's world \<Rightarrow> 's world" where
  "free_processing_result m result_ptr w =
     (case (loaded m, lib m, result_ptr) of
        (True, Some l, Some (h, res)) \<Rightarrow>
          w\<lparr>engine := FreeProcessingResult l (engine w) res,
            live_results := remove1 h (live_results w),
            trace := trace w @ [FreeProcessingResult_call h]\<rparr>
      | _ \<Rightarrow> w)"

text \<open>
  The module: the global \<open>_library_manager\<close>, and two counters of what the module has
  done (managers constructed, calls of \<open>load_library\<close>).
\<close>

record 's module_state =
  library_manager :: "'s SoundFlowLibraryManager option"
  constructed :: nat
  load_calls :: nat

definition module_init :: "'s module_state" where
  "module_init = \<lparr>library_manager = None, constructed = 0, load_calls = 0\<rparr>"

definition get_library_manager ::
  "'s platform \<Rightarrow> string \<Rightarrow> 's module_state \<Rightarrow> 's SoundFlowLibraryManager \<times> 's module_state" where
  "get_library_manager env base g =
     (case library_manager g of
        None \<Rightarrow>
          (let m = snd (load_library env (init_manager base))
           in (m, \<lparr>library_manager = Some m,
                   constructed = Suc (constructed g),
                   load_calls = Suc (load_calls g)\<rparr>))
      | Some m \<Rightarrow> (m, g))"

text \<open>Successive calls of \<open>get_library_manager\<close>, one per argument, with what each returns.\<close>

fun get_library_manager_calls ::
  "'s platform \<Rightarrow> string list \<Rightarrow> 's module_state
    \<Rightarrow> 's SoundFlowLibraryManager list \<times> 's module_state" where
  "get_library_manager_calls env [] g = ([], g)"
| "get_library_manager_calls env (base # rest) g =
     (case get_library_manager env base g of
        (m, g') \<Rightarrow>
          (case get_library_manager_calls env rest g' of
             (ms, g'') \<Rightarrow> (m # ms, g'')))"

section \<open>Tensor objects\<close>

text \<open>\<open>t.clone()\<close> and \<open>torch.zeros_like(t)\<close>: a new tensor object at the next free address.\<close>

definition clone :: "nat \<Rightarrow> 's world \<Rightarrow> nat \<times> 's world" where
  "clone r w =
     (n_tensors w,
      w\<lparr>tensors := (tensors w)(n_tensors w := tensors w r), n_tensors := Suc (n_tensors w)\<rparr>)"

definition zeros_like :: "nat \<Rightarrow> 's world \<Rightarrow> nat \<times> 's world" where
  "zeros_like r w =
     (n_tensors w,
      w\<lparr>tensors := (tensors w)(n_tensors w := map (map (map (\<lambda>x. 0))) (tensors w r)),
        n_tensors := Suc (n_tensors w)\<rparr>)"

text \<open>\<open>t[b, c] = xs\<close>, a write into the tensor object at address \<open>r\<close>.\<close>

definition set_channel :: "nat \<Rightarrow> nat \<Rightarrow> nat \<Rightarrow> sample list \<Rightarrow> 's world \<Rightarrow> 's world" where
  "set_channel r b c xs w =
     w\<lparr>tensors := (tensors w)(r := (tensors w r)[b := (tensors w r ! b)[c := xs]])\<rparr>"

definition shape :: "tensor \<Rightarrow> nat list list" where
  "shape t = map (map length) t"

section \<open>nodes.py: SoundFlow\_SimpleCompressorNode\<close>

text \<open>
  The body of the two loops of \<open>apply_compression\<close> (lines 756-786) for channel \<open>c\<close> of
  batch element \<open>b\<close> of the cloned tensor \<open>t\<close>. \<open>channel_data_np\<close> is a copy
  (\<open>astype(np.float32)\<close> allocates a new array, which is C-contiguous), so the library
  writes into the copy and line 786 writes the copy back into the clone.
\<close>

definition compress_channel ::
  "'s SoundFlowLibraryManager \<Rightarrow> compressor_params \<Rightarrow> int \<Rightarrow> nat \<Rightarrow> nat \<Rightarrow> nat \<Rightarrow> 's world
    \<Rightarrow> 's world" where
  "compress_channel m p sr t b c w =
     (let channel_data_np = tensors w t ! b ! c;
          num_samples = length channel_data_np
      in if num_samples = 0 then w
         else
           (case process_compressor m channel_data_np (int num_samples) sr p w of
              (ok, data, w') \<Rightarrow> set_channel t b c data w'))"

definition apply_compression ::
  "'s SoundFlowLibraryManager \<Rightarrow> audio \<Rightarrow> compressor_params \<Rightarrow> 's world \<Rightarrow> audio \<times> 's world" where
  "apply_compression m a p w =
     (if \<not> loaded m then (a, w)
      else
        (case clone (waveform a) w of
           (t, w1) \<Rightarrow>
             (let sr = sample_rate a;
                  sh = shape (tensors w1 t);
                  w2 = fold (\<lambda>b. fold (\<lambda>c. compress_channel m p sr t b c) [0..<length (sh ! b)])
                         [0..<length sh] w1
              in (\<lparr>waveform = t, sample_rate = sr\<rparr>, w2))))"

section \<open>nodes.py: SoundFlow\_DuckCompressorNode\<close>

datatype exn = IndexError | ValueError | RuntimeError

text \<open>
  How a loop body leaves the loops before their end: an exception that reaches the outer
  handler (line 921), or one of the two \<open>return (main_audio,)\<close> inside the loops
  (lines 912 and 915).
\<close>

datatype early = Raised exn | Returned

fun for_loop :: "('i \<Rightarrow> 'w \<Rightarrow> early option \<times> 'w) \<Rightarrow> 'i list \<Rightarrow> 'w \<Rightarrow> early option \<times> 'w" where
  "for_loop body [] w = (None, w)"
| "for_loop body (i # rest) w =
     (case body i w of
        (Some e, w') \<Rightarrow> (Some e, w')
      | (None, w') \<Rightarrow> for_loop body rest w')"

text \<open>\<open>torch.sum(x, dim=0)\<close> of the channels of one batch element.\<close>

definition sum_dim0 :: "sample list list \<Rightarrow> sample list" where
  "sum_dim0 chans =
     (case chans of
        [] \<Rightarrow> []
      | ch # rest \<Rightarrow> map (\<lambda>i. sum_list (map (\<lambda>x. x ! i) chans)) [0..<length ch])"

text \<open>
  Lines 843-851: the mono sidechain of batch element \<open>b\<close>. Indexing a batch element or a
  channel that the sidechain tensor does not have raises IndexError.
\<close>

definition sidechain_mono :: "tensor \<Rightarrow> nat \<Rightarrow> exn + sample list" where
  "sidechain_mono sc b =
     (if length sc \<le> b then Inl IndexError
      else
        (let chans = sc ! b
         in if 1 < length chans then
              Inr (map (\<lambda>x. x / real (length chans)) (sum_dim0 chans))
            else if chans = [] then Inl IndexError
            else Inr (chans ! 0)))"

text \<open>
  Lines 894-905, the reading of the result inside the inner \<open>try\<close>. A negative length
  makes \<open>np.ctypeslib.as_array\<close> raise. The slice \<open>[:n]\<close> of a channel of \<open>L\<close> samples has
  \<open>min n L\<close> cells: the assignment fills it when \<open>n \<le> L\<close>, broadcasts a single sample into
  the empty slice when \<open>n = 1\<close> and \<open>L = 0\<close>, and raises on any other size mismatch.
\<close>

definition copy_result ::
  "nat \<Rightarrow> nat \<Rightarrow> nat \<Rightarrow> ProcessingResult \<Rightarrow> 's world \<Rightarrow> exn + 's world" where
  "copy_result out b c result w =
     (let processed_length = length_res result
      in if processed_length < 0 then Inl ValueError
         else
           (let n = nat processed_length;
                processed_data = result_data result;
                old = tensors w out ! b ! c
            in if n \<le> length old then Inr (set_channel out b c (processed_data @ drop n old) w)
               else if n = 1 then Inr w
               else Inl RuntimeError))"

text \<open>Lines 864-915: the body of the inner loop, for channel \<open>c\<close> of batch element \<open>b\<close>.\<close>

definition duck_channel ::
  "'s SoundFlowLibraryManager \<Rightarrow> ducking_params \<Rightarrow> int \<Rightarrow> int \<Rightarrow> nat \<Rightarrow> nat \<Rightarrow> nat
    \<Rightarrow> sample list \<Rightarrow> nat \<Rightarrow> 's world \<Rightarrow> early option \<times> 's world" where
  "duck_channel m p main_sr sc_sr main out b sidechain_np c w =
     (let main_channel = tensors w main ! b ! c
      in case process_ducking m main_channel (int (length main_channel)) main_sr
                sidechain_np (int (length sidechain_np)) sc_sr p w of
           (None, w1) \<Rightarrow> (Some Returned, w1)
         | (Some (h, result), w1) \<Rightarrow>
             (case copy_result out b c result w1 of
                Inl e \<Rightarrow> (Some Returned, w1)
              | Inr w2 \<Rightarrow> (None, free_processing_result m (Some (h, result)) w2)))"

text \<open>Lines 842-915: the body of the outer loop, for batch element \<open>b\<close>.\<close>

definition duck_batch ::
  "'s SoundFlowLibraryManager \<Rightarrow> ducking_params \<Rightarrow> int \<Rightarrow> int \<Rightarrow> nat \<Rightarrow> nat \<Rightarrow> nat
    \<Rightarrow> nat list list \<Rightarrow> nat \<Rightarrow> 's world \<Rightarrow> early option \<times> 's world" where
  "duck_batch m p main_sr sc_sr main sc out sh b w =
     (case sidechain_mono (tensors w sc) b of
        Inl e \<Rightarrow> (Some (Raised e), w)
      | Inr sidechain_np \<Rightarrow>
          for_loop (duck_channel m p main_sr sc_sr main out b sidechain_np) [0..<length (sh ! b)] w)"

text \<open>Lines 831-915: the \<open>try\<close> block up to the end of the loops.\<close>

definition apply_ducking_try ::
  "'s SoundFlowLibraryManager \<Rightarrow> audio \<Rightarrow> audio \<Rightarrow> ducking_params \<Rightarrow> 's world
    \<Rightarrow> (early option \<times> nat) \<times> 's world" where
  "apply_ducking_try m main_audio sidechain_audio p w =
     (let main = waveform main_audio;
          sc = waveform sidechain_audio
      in case zeros_like main w of
           (out, w1) \<Rightarrow>
             (let sh = shape (tensors w1 main)
              in case for_loop
                        (duck_batch m p (sample_rate main_audio) (sample_rate sidechain_audio)
                           main sc out sh)
                        [0..<length sh] w1 of
                   (r, w2) \<Rightarrow> ((r, out), w2)))"

text \<open>
  \<open>apply_ducking\<close>: the original \<open>main_audio\<close> when the library is not loaded, when the
  loops were left early, and from the outer handler; the new dictionary otherwise.
\<close>

definition apply_ducking ::
  "'s SoundFlowLibraryManager \<Rightarrow> audio \<Rightarrow> audio \<Rightarrow> ducking_params \<Rightarrow> 's world
    \<Rightarrow> audio \<times> 's world" where
  "apply_ducking m main_audio sidechain_audio p w =
     (if \<not> loaded m then (main_audio, w)
      else
        (case apply_ducking_try m main_audio sidechain_audio p w of
           ((Some e, out), w2) \<Rightarrow> (main_audio, w2)
         | ((None, out), w2) \<Rightarrow>
             (\<lparr>waveform = out, sample_rate = sample_rate main_audio\<rparr>, w2)))"

section \<open>Notions used in the statements\<close>

text \<open>Channel \<open>c\<close> of batch element \<open>b\<close>.\<close>

definition channel :: "tensor \<Rightarrow> nat \<times> nat \<Rightarrow> sample list" where
  "channel T bc = T ! fst bc ! snd bc"

text \<open>The pairs (batch element, channel) of a shape, in the order of the two loops.\<close>

definition channel_indices :: "nat list list \<Rightarrow> (nat \<times> nat) list" where
  "channel_indices sh = concat (map (\<lambda>b. map (Pair b) [0..<length (sh ! b)]) [0..<length sh])"

text \<open>
  A step from \<open>w\<close> to \<open>w'\<close> that writes to the tensor at address \<open>t\<close> only, keeps its shape
  and allocates nothing.
\<close>

definition writes_only :: "nat \<Rightarrow> 's world \<Rightarrow> 's world \<Rightarrow> bool" where
  "writes_only t w w' \<longleftrightarrow>
     (\<forall>r. r \<noteq> t \<longrightarrow> tensors w' r = tensors w r)
     \<and> shape (tensors w' t) = shape (tensors w t)
     \<and> n_tensors w' = n_tensors w"

text \<open>The pair \<open>bc\<close> is a (batch element, channel) of the shape.\<close>

definition in_shape :: "nat list list \<Rightarrow> nat \<times> nat \<Rightarrow> bool" where
  "in_shape sh bc \<longleftrightarrow> fst bc < length sh \<and> snd bc < length (sh ! fst bc)"

text \<open>
  What \<open>apply_compression\<close> does to one channel when the output of \<open>ProcessCompressor\<close> is
  the function \<open>g\<close> of its arguments: an empty channel is skipped.
\<close>

definition compress_pure ::
  "(sample list \<Rightarrow> int \<Rightarrow> int \<Rightarrow> compressor_params \<Rightarrow> nat \<Rightarrow> sample) \<Rightarrow> int
    \<Rightarrow> compressor_params \<Rightarrow> sample list \<Rightarrow> sample list" where
  "compress_pure g sr p ch =
     (if ch = [] then [] else inplace (g ch (int (length ch)) sr p) ch)"

text \<open>The compressor call on channel \<open>bc\<close>, from the tensors before and after.\<close>

definition compressor_event ::
  "int \<Rightarrow> compressor_params \<Rightarrow> tensor \<Rightarrow> tensor \<Rightarrow> nat \<times> nat \<Rightarrow> event" where
  "compressor_event sr p T T' bc =
     ProcessCompressor_call (channel T bc) (int (length (channel T bc))) sr p (channel T' bc)"

text \<open>The arguments of the ducking calls of a trace, in order.\<close>

type_synonym ducking_call =
  "sample list \<times> int \<times> int \<times> sample list \<times> int \<times> int \<times> ducking_params"

fun ducking_args :: "event \<Rightarrow> ducking_call list" where
  "ducking_args (ProcessDucking_call mb ml msr sb sl ssr p r) = [(mb, ml, msr, sb, sl, ssr, p)]"
| "ducking_args ev = []"

definition ducking_calls :: "event list \<Rightarrow> ducking_call list" where
  "ducking_calls tr = concat (map ducking_args tr)"

text \<open>
  The arguments of the ducking call for channel \<open>bc\<close> of the main tensor \<open>Tm\<close> with the
  control buffer \<open>s\<close>; and the calls of a whole run over \<open>Tm\<close> with the sidechain tensor
  \<open>Tsc\<close>, one per channel, in the order of the loops (none for a batch element whose
  sidechain cannot be read).
\<close>

definition ducking_call_args ::
  "tensor \<Rightarrow> int \<Rightarrow> int \<Rightarrow> ducking_params \<Rightarrow> sample list \<Rightarrow> nat \<times> nat \<Rightarrow> ducking_call" where
  "ducking_call_args Tm msr ssr p s bc =
     (channel Tm bc, int (length (channel Tm bc)), msr, s, int (length s), ssr, p)"

definition expected_ducking_calls ::
  "tensor \<Rightarrow> tensor \<Rightarrow> int \<Rightarrow> int \<Rightarrow> ducking_params \<Rightarrow> ducking_call list" where
  "expected_ducking_calls Tm Tsc msr ssr p =
     concat (map (\<lambda>bc. case sidechain_mono Tsc (fst bc) of
                          Inl e \<Rightarrow> []
                        | Inr s \<Rightarrow> [ducking_call_args Tm msr ssr p s bc])
               (channel_indices (shape Tm)))"

text \<open>
  One completed iteration of the inner ducking loop: the channel, the control buffer
  passed, the pointer returned, the \<open>length\<close> of the result and its samples; the two
  library calls it makes; and the channel after \<open>output[b, c, :len(d)] = d\<close>.
\<close>

record duck_step =
  step_idx :: "nat \<times> nat"
  step_control :: "sample list"
  step_ptr :: nat
  step_len :: int
  step_data :: "sample list"

definition duck_events :: "tensor \<Rightarrow> int \<Rightarrow> int \<Rightarrow> ducking_params \<Rightarrow> duck_step \<Rightarrow> event list" where
  "duck_events Tm msr ssr p st =
     [ProcessDucking_call (channel Tm (step_idx st)) (int (length (channel Tm (step_idx st)))) msr
        (step_control st) (int (length (step_control st))) ssr p
        (Some (step_ptr st, step_len st, step_data st)),
      FreeProcessingResult_call (step_ptr st)]"

definition overwrite :: "sample list \<Rightarrow> sample list \<Rightarrow> sample list" where
  "overwrite d old = take (length old) d @ drop (length d) old"

text \<open>
  The iterations \<open>steps\<close> lead from \<open>w\<close> to \<open>w'\<close>: the trace has grown by their calls, the
  pointers are the next allocation numbers, each channel of the output tensor \<open>out\<close> they
  name holds its result, and no other channel of \<open>out\<close> has changed.
\<close>

definition duck_run ::
  "tensor \<Rightarrow> int \<Rightarrow> int \<Rightarrow> ducking_params \<Rightarrow> nat \<Rightarrow> 's world \<Rightarrow> 's world \<Rightarrow> duck_step list
    \<Rightarrow> bool" where
  "duck_run Tm msr ssr p out w w' steps \<longleftrightarrow>
     trace w' = trace w @ concat (map (duck_events Tm msr ssr p) steps)
     \<and> map step_ptr steps = [n_results w..<n_results w + length steps]
     \<and> n_results w' = n_results w + length steps
     \<and> (\<forall>st\<in>set steps.
          channel (tensors w' out) (step_idx st)
            = overwrite (step_data st) (channel (tensors w out) (step_idx st)))
     \<and> (\<forall>bc. bc \<notin> step_idx ` set steps \<longrightarrow>
          channel (tensors w' out) bc = channel (tensors w out) bc)"

text \<open>A ducking call that returned NULL.\<close>

fun null_result :: "event \<Rightarrow> bool" where
  "null_result (ProcessDucking_call mb ml msr sb sl ssr p None) = True"
| "null_result ev = False"

text \<open>From \<open>w\<close> to \<open>w'\<close> the trace has grown, and by no call that returned NULL.\<close>

definition no_null_since :: "'s world \<Rightarrow> 's world \<Rightarrow> bool" where
  "no_null_since w w' \<longleftrightarrow>
     (\<exists>evs. trace w' = trace w @ evs \<and> (\<forall>ev\<in>set evs. \<not> null_result ev))"

text \<open>
  A ducking call whose result cannot be copied into the output channel (lines 898-905
  raise): the channel has the length of the main buffer passed, and the result has a
  negative length, or more samples than the channel and not a single one for none.
\<close>

fun copy_raises :: "event \<Rightarrow> bool" where
  "copy_raises (ProcessDucking_call mb ml msr sb sl ssr p (Some (h, n, d))) =
     (n < 0 \<or> (length mb < nat n \<and> nat n \<noteq> 1))"
| "copy_raises ev = False"

text \<open>From \<open>w\<close> to \<open>w'\<close> the trace has grown, and by no call with such a result.\<close>

definition copied_since :: "'s world \<Rightarrow> 's world \<Rightarrow> bool" where
  "copied_since w w' \<longleftrightarrow>
     (\<exists>evs. trace w' = trace w @ evs \<and> (\<forall>ev\<in>set evs. \<not> copy_raises ev))"

section \<open>Example inputs\<close>

text \<open>
  A library for the examples: the compressor halves every sample; ducking returns the
  halved main buffer with \<open>length = main_length + d\<close>, or NULL when \<open>d\<close> is negative. Its
  state counts the calls.
\<close>

definition example_lib :: "int \<Rightarrow> nat cdll" where
  "example_lib d =
     \<lparr>ProcessCompressor = (\<lambda>s buf len sr p. (\<lambda>i. buf ! i / 2, Suc s)),
      ProcessDucking = (\<lambda>s mb ml msr sb sl ssr p.
        (if d < 0 then None
         else Some \<lparr>audio_ptr = (\<lambda>i. if i < length mb then mb ! i / 2 else 0),
                    length_res = ml + d, sample_rate_res = msr\<rparr>,
         Suc s)),
      FreeProcessingResult = (\<lambda>s r. s)\<rparr>"

definition example_manager :: "int \<Rightarrow> nat SoundFlowLibraryManager" where
  "example_manager d = \<lparr>lib_base_name = ''lib/effects'', lib = Some (example_lib d), loaded = True\<rparr>"

definition unloaded_manager :: "nat SoundFlowLibraryManager" where
  "unloaded_manager = \<lparr>lib_base_name = ''lib/effects'', lib = None, loaded = False\<rparr>"

text \<open>
  Three tensors: a stereo main waveform of two samples, a stereo sidechain, and a
  waveform whose only channel has no samples.
\<close>

definition example_world :: "nat world" where
  "example_world =
     \<lparr>tensors = (\<lambda>r. if r = 0 then [[[2, 4], [6, 8]]]
                      else if r = 1 then [[[1, 1], [3, 5]]]
                      else if r = 2 then [[[]]] else []),
      n_tensors = 3, engine = 0, live_results = [], n_results = 0, trace = []\<rparr>"

definition example_main :: audio where
  "example_main = \<lparr>waveform = 0, sample_rate = 44100\<rparr>"

definition example_sidechain :: audio where
  "example_sidechain = \<lparr>waveform = 1, sample_rate = 22050\<rparr>"

definition example_empty :: audio where
  "example_empty = \<lparr>waveform = 2, sample_rate = 44100\<rparr>"

definition example_cparams :: compressor_params where
  "example_cparams =
     \<lparr>threshold_db = -20, ratio = 4, attack_ms = 10, release_ms = 100, knee_db = 0,
      makeup_gain_db = 0, mix = 1\<rparr>"

definition example_dparams :: ducking_params where
  "example_dparams =
     \<lparr>main_gain_db = 0, sidechain_gain_db = 0, duck_threshold_db = -24, reduction_db = -12,
      duck_attack_ms = 5, duck_release_ms = 200\<rparr>"

text \<open>
  Two surroundings for \<open>load_library\<close>: a Linux host where the library file exists and
  loads, and one where no file exists.
\<close>

definition example_platform :: "bool \<Rightarrow> nat platform" where
  "example_platform present =
     \<lparr>os_name = ''posix'', platform_system = ''Linux'', script_dir = ''/nodes'',
      path_join = (\<lambda>dir name. dir @ ''/'' @ name),
      path_exists = (\<lambda>path. present \<and> path = ''/nodes/liblib/effects.so''),
      CDLL = (\<lambda>path. Some (example_lib 0)),
      has_symbols = (\<lambda>l. True)\<rparr>"

text \<open>
  The example store with a sidechain whose batch element has no channel, and a manager
  that reports loaded without a library handle.
\<close>

definition channelless_world :: "nat world" where
  "channelless_world = example_world\<lparr>tensors := (tensors example_world)(2 := [[]])\<rparr>"

definition handleless_manager :: "nat SoundFlowLibraryManager" where
  "handleless_manager = \<lparr>lib_base_name = ''lib/effects'', lib = None, loaded = True\<rparr>"

section \<open>Lemmas about the loops and the store\<close>

subsection \<open>The library manager\<close>

lemma load_library_lib:
  "loaded (snd (load_library env m)) \<Longrightarrow> lib (snd (load_library env m)) \<noteq> None"
  by (auto simp: load_library_def split: option.splits if_splits)

subsection \<open>Steps that write to one tensor\<close>

lemma writes_only_refl: "writes_only t w w"
  by (simp add: writes_only_def)

lemma writes_only_trans: "writes_only t w w1 \<Longrightarrow> writes_only t w1 w2 \<Longrightarrow> writes_only t w w2"
  by (simp add: writes_only_def)

lemma fold_rel:
  assumes step: "\<And>x w. R w (f x w)" and refl: "\<And>w. R w w"
    and trans: "\<And>a b c. R a b \<Longrightarrow> R b c \<Longrightarrow> R a c"
  shows "R w (fold f xs w)"
proof (induction xs arbitrary: w)
  case Nil
  show ?case by (simp add: refl)
next
  case (Cons x xs)
  have "R w (f x w)" by (rule step)
  moreover have "R (f x w) (fold f xs (f x w))" by (rule Cons.IH)
  ultimately show ?case using trans by auto
qed

lemma for_loop_rel:
  assumes step: "\<And>i w. R w (snd (body i w))" and refl: "\<And>w. R w w"
    and trans: "\<And>a b c. R a b \<Longrightarrow> R b c \<Longrightarrow> R a c"
  shows "R w (snd (for_loop body xs w))"
proof (induction xs arbitrary: w)
  case Nil
  show ?case by (simp add: refl)
next
  case (Cons x xs)
  obtain r w1 where b: "body x w = (r, w1)" by (cases "body x w")
  have s1: "R w w1" using step[of w x] b by simp
  show ?case
  proof (cases r)
    case None
    have "R w1 (snd (for_loop body xs w1))" by (rule Cons.IH)
    with s1 show ?thesis using b None trans by auto
  next
    case (Some e)
    with s1 b show ?thesis by simp
  qed
qed

lemma map_update_self: "(map f ys)[c := f (ys ! c)] = map f ys"
proof (cases "c < length ys")
  case True
  then have "f (ys ! c) = map f ys ! c" by simp
  then show ?thesis by (simp only: list_update_id)
next
  case False
  then show ?thesis by (simp add: list_update_beyond)
qed

lemma shape_update_same:
  "length xs = length (T ! b ! c) \<Longrightarrow> shape (T[b := (T ! b)[c := xs]]) = shape T"
  unfolding shape_def by (simp add: map_update map_update_self)

lemma length_inplace [simp]: "length (inplace f buf) = length buf"
  by (simp add: inplace_def)

lemma process_compressor_tensors:
  "process_compressor m buf len sr p w = (ok, data, w') \<Longrightarrow>
     tensors w' = tensors w \<and> n_tensors w' = n_tensors w \<and> length data = length buf
     \<and> live_results w' = live_results w \<and> n_results w' = n_results w"
  by (auto simp: process_compressor_def split: option.splits if_splits prod.splits)

lemma compress_channel_writes_only: "writes_only t w (compress_channel m p sr t b c w)"
proof (cases "tensors w t ! b ! c = []")
  case True
  then show ?thesis by (simp add: compress_channel_def writes_only_refl)
next
  case False
  obtain ok data w' where pc:
    "process_compressor m (tensors w t ! b ! c) (int (length (tensors w t ! b ! c))) sr p w = (ok, data, w')"
    by (cases "process_compressor m (tensors w t ! b ! c) (int (length (tensors w t ! b ! c))) sr p w")
  from process_compressor_tensors[OF pc] have
    t: "tensors w' = tensors w" and n: "n_tensors w' = n_tensors w"
    and l: "length data = length (tensors w t ! b ! c)" by simp_all
  have "compress_channel m p sr t b c w = set_channel t b c data w'"
    using False pc by (simp add: compress_channel_def Let_def)
  then show ?thesis
    using t n l by (simp add: writes_only_def set_channel_def shape_update_same)
qed


lemma apply_compression_loop_writes_only:
  "writes_only t w
     (fold (\<lambda>b. fold (\<lambda>c. compress_channel m p sr t b c) (cs b)) bs w)"
  by (rule fold_rel; (rule fold_rel)?)
     (auto intro: compress_channel_writes_only writes_only_refl writes_only_trans)

lemma shape_zeros [simp]: "shape (map (map (map (\<lambda>x. 0))) T) = shape T"
  by (simp add: shape_def comp_def)

lemma process_ducking_frame:
  "process_ducking m mb ml msr sb sl ssr p w = (r, w') \<Longrightarrow>
     tensors w' = tensors w \<and> n_tensors w' = n_tensors w"
  by (auto simp: process_ducking_def split: option.splits if_splits prod.splits)

lemma free_processing_result_frame:
  "tensors (free_processing_result m ptr w) = tensors w
   \<and> n_tensors (free_processing_result m ptr w) = n_tensors w"
  by (auto simp: free_processing_result_def split: option.splits bool.splits prod.splits)

lemma length_result_data [simp]: "length (result_data res) = nat (length_res res)"
  by (simp add: result_data_def)

lemma copy_result_writes_only:
  "copy_result out b c res w = Inr w' \<Longrightarrow> writes_only out w w'"
  by (auto simp: copy_result_def Let_def writes_only_def set_channel_def shape_update_same
           split: if_splits)

lemma duck_channel_writes_only:
  "writes_only out w (snd (duck_channel m p msr ssr main out b s c w))"
proof -
  let ?mc = "tensors w main ! b ! c"
  obtain r w1 where pd:
    "process_ducking m ?mc (int (length ?mc)) msr s (int (length s)) ssr p w = (r, w1)"
    by (cases "process_ducking m ?mc (int (length ?mc)) msr s (int (length s)) ssr p w")
  from process_ducking_frame[OF pd] have w1: "writes_only out w w1"
    by (simp add: writes_only_def)
  show ?thesis
  proof (cases r)
    case None
    with pd w1 show ?thesis by (simp add: duck_channel_def Let_def)
  next
    case (Some hr)
    obtain h res where hr: "hr = (h, res)" by (cases hr)
    show ?thesis
    proof (cases "copy_result out b c res w1")
      case (Inl e)
      with pd w1 Some hr show ?thesis by (simp add: duck_channel_def Let_def)
    next
      case (Inr w2)
      from copy_result_writes_only[OF Inr] have "writes_only out w1 w2" .
      with w1 have "writes_only out w w2" by (rule writes_only_trans)
      then have "writes_only out w (free_processing_result m (Some (h, res)) w2)"
        by (simp add: writes_only_def free_processing_result_frame)
      with pd Some hr Inr show ?thesis by (simp add: duck_channel_def Let_def)
    qed
  qed
qed

lemma duck_batch_writes_only:
  "writes_only out w (snd (duck_batch m p msr ssr main sc out sh b w))"
proof (cases "sidechain_mono (tensors w sc) b")
  case (Inl e)
  then show ?thesis by (simp add: duck_batch_def writes_only_refl)
next
  case (Inr s)
  have "writes_only out w
          (snd (for_loop (duck_channel m p msr ssr main out b s) [0..<length (sh ! b)] w))"
    by (rule for_loop_rel)
       (auto intro: duck_channel_writes_only writes_only_refl writes_only_trans)
  with Inr show ?thesis by (simp add: duck_batch_def)
qed

lemma ducking_loops_writes_only:
  "writes_only out w (snd (for_loop (duck_batch m p msr ssr main sc out sh) bs w))"
  by (rule for_loop_rel)
     (auto intro: duck_batch_writes_only writes_only_refl writes_only_trans)

lemma apply_ducking_try_frame:
  assumes "apply_ducking_try m ma sa p w = ((r, out), w')"
  shows "out = n_tensors w"
    and "\<And>x. x \<noteq> n_tensors w \<Longrightarrow> tensors w' x = tensors w x"
    and "shape (tensors w' out) = shape (tensors w (waveform ma))"
    and "n_tensors w' = Suc (n_tensors w)"
proof -
  let ?w1 = "snd (zeros_like (waveform ma) w)"
  let ?sh = "shape (tensors ?w1 (waveform ma))"
  let ?loop = "for_loop (duck_batch m p (sample_rate ma) (sample_rate sa) (waveform ma)
                  (waveform sa) (n_tensors w) ?sh) [0..<length ?sh] ?w1"
  have eq: "apply_ducking_try m ma sa p w = ((fst ?loop, n_tensors w), snd ?loop)"
    by (simp add: apply_ducking_try_def zeros_like_def Let_def split: prod.splits)
  have out: "out = n_tensors w" using assms unfolding eq by blast
  have w': "w' = snd ?loop" using assms unfolding eq by blast
  have wo: "writes_only (n_tensors w) ?w1 (snd ?loop)"
    by (rule ducking_loops_writes_only)
  show "out = n_tensors w" by (rule out)
  show "tensors w' x = tensors w x" if "x \<noteq> n_tensors w" for x
    using wo that w' by (simp add: writes_only_def zeros_like_def)
  show "shape (tensors w' out) = shape (tensors w (waveform ma))"
    using wo w' out by (simp add: writes_only_def zeros_like_def)
  show "n_tensors w' = Suc (n_tensors w)"
    using wo w' by (simp add: writes_only_def zeros_like_def)
qed

lemma apply_compression_frame:
  assumes "loaded m" and "apply_compression m a p w = (out, w')"
  shows "waveform out = n_tensors w"
    and "\<And>x. x \<noteq> n_tensors w \<Longrightarrow> tensors w' x = tensors w x"
    and "shape (tensors w' (waveform out)) = shape (tensors w (waveform a))"
    and "sample_rate out = sample_rate a"
proof -
  let ?w1 = "snd (clone (waveform a) w)"
  let ?t = "n_tensors w"
  let ?sh = "shape (tensors ?w1 ?t)"
  let ?w2 = "fold (\<lambda>b. fold (\<lambda>c. compress_channel m p (sample_rate a) ?t b c)
                 [0..<length (?sh ! b)]) [0..<length ?sh] ?w1"
  have eq: "apply_compression m a p w = (\<lparr>waveform = ?t, sample_rate = sample_rate a\<rparr>, ?w2)"
    using assms(1) by (simp add: apply_compression_def clone_def Let_def)
  have out: "out = \<lparr>waveform = ?t, sample_rate = sample_rate a\<rparr>"
    using assms(2) unfolding eq by blast
  have w': "w' = ?w2" using assms(2) unfolding eq by blast
  have wo: "writes_only ?t ?w1 ?w2" by (rule apply_compression_loop_writes_only)
  show "waveform out = n_tensors w" using out by simp
  show "sample_rate out = sample_rate a" using out by simp
  show "tensors w' x = tensors w x" if "x \<noteq> n_tensors w" for x
    using wo that w' by (simp add: writes_only_def clone_def)
  show "shape (tensors w' (waveform out)) = shape (tensors w (waveform a))"
    using wo w' out by (simp add: writes_only_def clone_def)
qed


lemma for_loop_None_rel:
  assumes "for_loop body xs w = (None, w')"
    and step: "\<And>i v v'. body i v = (None, v') \<Longrightarrow> R v v'"
    and refl: "\<And>v. R v v"
    and trans: "\<And>a b c. R a b \<Longrightarrow> R b c \<Longrightarrow> R a c"
  shows "R w w'"
  using assms(1)
proof (induction xs arbitrary: w)
  case Nil
  then show ?case by (simp add: refl)
next
  case (Cons x xs)
  obtain r w1 where b: "body x w = (r, w1)" by (cases "body x w")
  show ?case
  proof (cases r)
    case None
    with Cons.prems b have "for_loop body xs w1 = (None, w')" by simp
    then have "R w1 w'" by (rule Cons.IH)
    moreover have "R w w1" using step b None by simp
    ultimately show ?thesis by (rule trans[rotated])
  next
    case (Some e)
    with Cons.prems b show ?thesis by simp
  qed
qed

lemma no_null_since_refl: "no_null_since w w"
  by (simp add: no_null_since_def)

lemma no_null_since_trans:
  "no_null_since a b \<Longrightarrow> no_null_since b c \<Longrightarrow> no_null_since a c"
  by (auto simp: no_null_since_def)

lemma copy_result_trace:
  "copy_result out b c res w = Inr w' \<Longrightarrow>
     trace w' = trace w \<and> n_results w' = n_results w \<and> live_results w' = live_results w
     \<and> engine w' = engine w"
  by (auto simp: copy_result_def Let_def set_channel_def split: if_splits)

lemma duck_channel_None_no_null:
  assumes "duck_channel m p msr ssr main out b s c w = (None, w')"
  shows "no_null_since w w'"
proof -
  let ?mc = "tensors w main ! b ! c"
  obtain r w1 where pd:
    "process_ducking m ?mc (int (length ?mc)) msr s (int (length s)) ssr p w = (r, w1)"
    by (cases "process_ducking m ?mc (int (length ?mc)) msr s (int (length s)) ssr p w")
  from assms pd obtain h res where r: "r = Some (h, res)"
    by (cases r) (auto simp: duck_channel_def Let_def)
  from pd r have t1: "\<exists>ev. trace w1 = trace w @ [ev] \<and> \<not> null_result ev"
    by (auto simp: process_ducking_def split: option.splits if_splits prod.splits)
  from assms pd r obtain w2 where cr: "copy_result out b c res w1 = Inr w2"
    and w': "w' = free_processing_result m (Some (h, res)) w2"
    by (cases "copy_result out b c res w1") (auto simp: duck_channel_def Let_def)
  from copy_result_trace[OF cr] have t2: "trace w2 = trace w1" by simp
  have t3: "trace w' = trace w2 \<or> trace w' = trace w2 @ [FreeProcessingResult_call h]"
    unfolding w' by (auto simp: free_processing_result_def split: option.splits bool.splits)
  from t1 t2 t3 show ?thesis by (auto simp: no_null_since_def)
qed

lemma duck_batch_None_no_null:
  assumes "duck_batch m p msr ssr main sc out sh b w = (None, w')"
  shows "no_null_since w w'"
proof (cases "sidechain_mono (tensors w sc) b")
  case (Inl e)
  with assms show ?thesis by (simp add: duck_batch_def)
next
  case (Inr s)
  with assms have
    "for_loop (duck_channel m p msr ssr main out b s) [0..<length (sh ! b)] w = (None, w')"
    by (simp add: duck_batch_def)
  then show ?thesis
    by (rule for_loop_None_rel)
       (auto intro: duck_channel_None_no_null no_null_since_refl no_null_since_trans)
qed

lemma apply_ducking_try_None_no_null:
  assumes "apply_ducking_try m ma sa p w = ((None, out), w')"
  shows "no_null_since w w'"
proof -
  let ?w1 = "snd (zeros_like (waveform ma) w)"
  let ?sh = "shape (tensors ?w1 (waveform ma))"
  let ?loop = "for_loop (duck_batch m p (sample_rate ma) (sample_rate sa) (waveform ma)
                  (waveform sa) (n_tensors w) ?sh) [0..<length ?sh] ?w1"
  have eq: "apply_ducking_try m ma sa p w = ((fst ?loop, n_tensors w), snd ?loop)"
    by (simp add: apply_ducking_try_def zeros_like_def Let_def split: prod.splits)
  have "?loop = (None, w')" using assms unfolding eq by (metis prod.collapse prod.inject)
  then have "no_null_since ?w1 w'"
    by (rule for_loop_None_rel)
       (auto intro: duck_batch_None_no_null no_null_since_refl no_null_since_trans)
  then show ?thesis by (simp add: no_null_since_def zeros_like_def)
qed


subsection \<open>Shapes and channels\<close>

lemma in_shape_shape:
  "in_shape (shape T) bc \<longleftrightarrow> fst bc < length T \<and> snd bc < length (T ! fst bc)"
  by (auto simp: in_shape_def shape_def)

lemma set_channel_indices: "set (channel_indices sh) = {bc. in_shape sh bc}"
  by (auto simp: channel_indices_def in_shape_def)

lemma distinct_pairs:
  "distinct bs \<Longrightarrow> (\<And>b. distinct (g b)) \<Longrightarrow>
     distinct (concat (map (\<lambda>b. map (Pair b) (g b)) bs))"
  by (induction bs) (auto simp: distinct_map inj_on_def)

lemma distinct_channel_indices: "distinct (channel_indices sh)"
  unfolding channel_indices_def by (rule distinct_pairs) simp_all

lemma shape_eq_lengths:
  assumes "shape T' = shape T"
  shows "length T' = length T" and "b < length T \<Longrightarrow> length (T' ! b) = length (T ! b)"
    and "b < length T \<Longrightarrow> c < length (T ! b) \<Longrightarrow> length (T' ! b ! c) = length (T ! b ! c)"
proof -
  show l: "length T' = length T" using assms unfolding shape_def by (rule map_eq_imp_length_eq)
  have m: "map length (T' ! b) = map length (T ! b)" if "b < length T" for b
  proof -
    have "shape T' ! b = shape T ! b" using assms by simp
    with that l show ?thesis by (simp add: shape_def)
  qed
  show l2: "length (T' ! b) = length (T ! b)" if "b < length T"
    using m[OF that] by (rule map_eq_imp_length_eq)
  show "length (T' ! b ! c) = length (T ! b ! c)" if "b < length T" "c < length (T ! b)"
  proof -
    have "map length (T' ! b) ! c = map length (T ! b) ! c" using m[OF that(1)] by simp
    with that l2 show ?thesis by simp
  qed
qed

lemma tensor_eqI:
  assumes sh: "shape T' = shape T"
    and ch: "\<And>bc. in_shape (shape T) bc \<Longrightarrow> channel T' bc = channel T bc"
  shows "T' = T"
proof (rule nth_equalityI)
  show "length T' = length T" by (rule shape_eq_lengths(1)[OF sh])
next
  fix b assume "b < length T'"
  then have b: "b < length T" by (simp add: shape_eq_lengths(1)[OF sh])
  show "T' ! b = T ! b"
  proof (rule nth_equalityI)
    show "length (T' ! b) = length (T ! b)" by (rule shape_eq_lengths(2)[OF sh b])
  next
    fix c assume "c < length (T' ! b)"
    then have c: "c < length (T ! b)" by (simp add: shape_eq_lengths(2)[OF sh b])
    from ch[of "(b, c)"] b c show "T' ! b ! c = T ! b ! c"
      by (simp add: in_shape_shape channel_def)
  qed
qed

lemma channel_update:
  "channel (T[b := (T ! b)[c := xs]]) bc =
     (if bc = (b, c) \<and> b < length T \<and> c < length (T ! b) then xs else channel T bc)"
proof (cases bc)
  case (Pair b' c')
  show ?thesis
  proof (cases "b' = b")
    case True
    show ?thesis
    proof (cases "b < length T")
      case b: True
      show ?thesis
        using Pair True b by (cases "c' = c"; cases "c < length (T ! b)")
                             (simp_all add: channel_def list_update_beyond)
    next
      case False
      then show ?thesis using Pair True by (simp add: channel_def list_update_beyond)
    qed
  next
    case False
    then show ?thesis using Pair by (simp add: channel_def)
  qed
qed

lemma fold_nested:
  "fold (\<lambda>b. fold (f b) (g b)) bs w =
     fold (\<lambda>bc. f (fst bc) (snd bc)) (concat (map (\<lambda>b. map (Pair b) (g b)) bs)) w"
  by (induction bs arbitrary: w) (simp_all add: fold_map comp_def)


subsection \<open>The loops of \<open>apply_compression\<close>, channel by channel\<close>

lemma process_compressor_loaded:
  assumes "loaded m" "lib m = Some l"
  shows "process_compressor m buf len sr p w =
           (True, inplace (fst (ProcessCompressor l (engine w) buf len sr p)) buf,
            w\<lparr>engine := snd (ProcessCompressor l (engine w) buf len sr p),
              trace := trace w @
                [ProcessCompressor_call buf len sr p
                   (inplace (fst (ProcessCompressor l (engine w) buf len sr p)) buf)]\<rparr>)"
  using assms by (simp add: process_compressor_def split: prod.splits)

lemma compress_channel_empty:
  "channel (tensors w t) (b, c) = [] \<Longrightarrow> compress_channel m p sr t b c w = w"
  by (simp add: compress_channel_def channel_def)

lemma compress_channel_other:
  "bc \<noteq> (b, c) \<Longrightarrow>
     channel (tensors (compress_channel m p sr t b c w) t) bc = channel (tensors w t) bc"
  by (auto simp: compress_channel_def Let_def set_channel_def channel_update
        dest: process_compressor_tensors split: prod.splits)

lemma compress_channel_step:
  assumes "loaded m" "lib m = Some l" "in_shape (shape (tensors w t)) (b, c)"
    and "channel (tensors w t) (b, c) \<noteq> []"
  shows "trace (compress_channel m p sr t b c w) =
           trace w @ [compressor_event sr p (tensors w t)
                        (tensors (compress_channel m p sr t b c w) t) (b, c)]"
    and "channel (tensors (compress_channel m p sr t b c w) t) (b, c) =
           inplace (fst (ProcessCompressor l (engine w) (channel (tensors w t) (b, c))
                      (int (length (channel (tensors w t) (b, c)))) sr p))
             (channel (tensors w t) (b, c))"
  using assms
  by (simp_all add: compress_channel_def Let_def process_compressor_loaded[OF assms(1,2)]
        set_channel_def channel_update compressor_event_def in_shape_shape)
     (simp_all add: channel_def)

lemma compress_fold:
  assumes "loaded m" "lib m = Some l"
  shows "distinct idxs \<Longrightarrow> \<forall>bc\<in>set idxs. in_shape (shape (tensors w t)) bc \<Longrightarrow>
     trace (fold (\<lambda>bc. compress_channel m p sr t (fst bc) (snd bc)) idxs w) =
       trace w @
         map (compressor_event sr p (tensors w t)
                (tensors (fold (\<lambda>bc. compress_channel m p sr t (fst bc) (snd bc)) idxs w) t))
           (filter (\<lambda>bc. channel (tensors w t) bc \<noteq> []) idxs)
     \<and> (\<forall>bc. bc \<notin> set idxs \<longrightarrow>
          channel (tensors (fold (\<lambda>bc. compress_channel m p sr t (fst bc) (snd bc)) idxs w) t) bc
            = channel (tensors w t) bc)"
proof (induction idxs arbitrary: w)
  case Nil
  show ?case by simp
next
  case (Cons x idxs)
  let ?F = "\<lambda>bc. compress_channel m p sr t (fst bc) (snd bc)"
  let ?w1 = "?F x w"
  let ?w' = "fold ?F idxs ?w1"
  let ?T = "tensors w t" and ?T1 = "tensors ?w1 t" and ?T' = "tensors ?w' t"
  have x: "in_shape (shape ?T) x" and xn: "x \<notin> set idxs" and d: "distinct idxs"
    using Cons.prems by simp_all
  have sh: "shape ?T1 = shape ?T"
    using compress_channel_writes_only[of t w m p sr "fst x" "snd x"]
    by (simp add: writes_only_def)
  have r: "\<forall>bc\<in>set idxs. in_shape (shape ?T1) bc" using Cons.prems(2) sh by simp
  note ih = Cons.IH[OF d r]
  note ih1 = ih[THEN conjunct1] and ih2 = ih[THEN conjunct2, rule_format]
  have other: "channel ?T1 bc = channel ?T bc" if "bc \<noteq> x" for bc
    using compress_channel_other[of bc "fst x" "snd x" m p sr t w] that by simp
  have same: "channel ?T' x = channel ?T1 x" using ih2[OF xn] .
  have rest: "map (compressor_event sr p ?T1 ?T') (filter (\<lambda>bc. channel ?T1 bc \<noteq> []) idxs)
      = map (compressor_event sr p ?T ?T') (filter (\<lambda>bc. channel ?T bc \<noteq> []) idxs)"
  proof -
    have eqs: "channel ?T1 bc = channel ?T bc" if "bc \<in> set idxs" for bc
      using other[of bc] xn that by blast
    have f: "filter (\<lambda>bc. channel ?T1 bc \<noteq> []) idxs = filter (\<lambda>bc. channel ?T bc \<noteq> []) idxs"
      by (rule filter_cong) (simp_all add: eqs)
    show ?thesis unfolding f
      by (rule map_cong) (simp_all add: compressor_event_def eqs)
  qed
  have head: "trace ?w1 = trace w @
      (if channel ?T x = [] then [] else [compressor_event sr p ?T ?T' x])"
  proof (cases "channel ?T x = []")
    case True
    then show ?thesis using compress_channel_empty[of w t "fst x" "snd x" m p sr] by simp
  next
    case False
    from compress_channel_step(1)[OF assms, of w t "fst x" "snd x" p sr] x False
    have "trace ?w1 = trace w @ [compressor_event sr p ?T ?T1 x]" by simp
    then show ?thesis using False same by (simp add: compressor_event_def)
  qed
  have tr: "trace ?w' = trace w @
      map (compressor_event sr p ?T ?T') (filter (\<lambda>bc. channel ?T bc \<noteq> []) (x # idxs))"
    using ih1 head rest by simp
  have un: "\<forall>bc. bc \<notin> set (x # idxs) \<longrightarrow> channel ?T' bc = channel ?T bc"
  proof (intro allI impI)
    fix bc assume n: "bc \<notin> set (x # idxs)"
    then have "channel ?T' bc = channel ?T1 bc" using ih2[of bc] by simp
    also have "\<dots> = channel ?T bc" using other[of bc] n by simp
    finally show "channel ?T' bc = channel ?T bc" .
  qed
  from tr un show ?case unfolding fold_simps by blast
qed

lemma compress_fold_pure:
  assumes "loaded m" "lib m = Some l"
    and pure: "\<And>s buf len sr p. fst (ProcessCompressor l s buf len sr p) = g buf len sr p"
  shows "distinct idxs \<Longrightarrow> \<forall>bc\<in>set idxs. in_shape (shape (tensors w t)) bc \<Longrightarrow>
     channel (tensors (fold (\<lambda>bc. compress_channel m p sr t (fst bc) (snd bc)) idxs w) t) bc
       = (if bc \<in> set idxs then compress_pure g sr p (channel (tensors w t) bc)
          else channel (tensors w t) bc)"
proof (induction idxs arbitrary: w)
  case Nil
  show ?case by simp
next
  case (Cons x idxs)
  let ?F = "\<lambda>bc. compress_channel m p sr t (fst bc) (snd bc)"
  let ?w1 = "?F x w"
  let ?T = "tensors w t" and ?T1 = "tensors ?w1 t"
  have x: "in_shape (shape ?T) x" and xn: "x \<notin> set idxs" and d: "distinct idxs"
    using Cons.prems by simp_all
  have sh: "shape ?T1 = shape ?T"
    using compress_channel_writes_only[of t w m p sr "fst x" "snd x"]
    by (simp add: writes_only_def)
  have r: "\<forall>bc\<in>set idxs. in_shape (shape ?T1) bc" using Cons.prems(2) sh by simp
  note ih = Cons.IH[OF d r]
  have other: "channel ?T1 bc = channel ?T bc" if "bc \<noteq> x" for bc
    using compress_channel_other[of bc "fst x" "snd x" m p sr t w] that by simp
  have here: "channel ?T1 x = compress_pure g sr p (channel ?T x)"
  proof (cases "channel ?T x = []")
    case True
    then show ?thesis
      using compress_channel_empty[of w t "fst x" "snd x" m p sr]
      by (simp add: compress_pure_def)
  next
    case False
    from compress_channel_step(2)[OF assms(1,2), of w t "fst x" "snd x" p sr] x False
    show ?thesis by (simp add: compress_pure_def pure)
  qed
  show ?case
  proof (cases "bc = x")
    case True
    with ih xn here show ?thesis by simp
  next
    case False
    with ih other show ?thesis by simp
  qed
qed


lemma apply_compression_loaded:
  assumes "loaded m"
  shows "apply_compression m a p w =
     (\<lparr>waveform = n_tensors w, sample_rate = sample_rate a\<rparr>,
      fold (\<lambda>bc. compress_channel m p (sample_rate a) (n_tensors w) (fst bc) (snd bc))
        (channel_indices (shape (tensors w (waveform a)))) (snd (clone (waveform a) w)))"
  using assms
  by (simp add: apply_compression_def clone_def Let_def fold_nested channel_indices_def)

lemma clone_tensors:
  "tensors (snd (clone r w)) (n_tensors w) = tensors w r"
  "trace (snd (clone r w)) = trace w"
  by (simp_all add: clone_def)

lemma length_compress_pure [simp]: "length (compress_pure g sr p ch) = length ch"
  by (simp add: compress_pure_def)

lemma shape_map_map:
  "(\<And>ch. length (f ch) = length ch) \<Longrightarrow> shape (map (map f) T) = shape T"
  by (simp add: shape_def comp_def)

lemma channel_map_map:
  "in_shape (shape T) bc \<Longrightarrow> channel (map (map f) T) bc = f (channel T bc)"
  by (simp add: in_shape_shape channel_def)

lemma compress_fold_pure_tensor:
  assumes "loaded m" "lib m = Some l"
    and pure: "\<And>s buf len sr p. fst (ProcessCompressor l s buf len sr p) = g buf len sr p"
    and d: "distinct idxs" and s: "set idxs = {bc. in_shape (shape (tensors w t)) bc}"
  shows "tensors (fold (\<lambda>bc. compress_channel m p sr t (fst bc) (snd bc)) idxs w) t
           = map (map (compress_pure g sr p)) (tensors w t)"
proof -
  let ?w' = "fold (\<lambda>bc. compress_channel m p sr t (fst bc) (snd bc)) idxs w"
  let ?T = "tensors w t"
  have wo: "writes_only t w ?w'"
    by (rule fold_rel)
       (auto intro: compress_channel_writes_only writes_only_refl writes_only_trans)
  then have sh: "shape (tensors ?w' t) = shape ?T" by (simp add: writes_only_def)
  have r: "\<forall>bc\<in>set idxs. in_shape (shape ?T) bc" using s by simp
  have ch: "channel (tensors ?w' t) bc = compress_pure g sr p (channel ?T bc)"
    if "in_shape (shape ?T) bc" for bc
    using compress_fold_pure[OF assms(1,2) pure d r, of p sr bc] that s by simp
  have sh2: "shape (map (map (compress_pure g sr p)) ?T) = shape ?T"
    by (rule shape_map_map) simp
  show ?thesis
  proof (rule tensor_eqI)
    show "shape (tensors ?w' t) = shape (map (map (compress_pure g sr p)) ?T)"
      using sh sh2 by simp
  next
    fix bc assume "in_shape (shape (map (map (compress_pure g sr p)) ?T)) bc"
    then have i: "in_shape (shape ?T) bc" using sh2 by simp
    show "channel (tensors ?w' t) bc = channel (map (map (compress_pure g sr p)) ?T) bc"
      using ch[OF i] channel_map_map[OF i] by simp
  qed
qed

subsection \<open>The calls of a loop that may stop early\<close>

lemma for_loop_prefix:
  assumes step: "\<And>i v r v'. I v \<Longrightarrow> body i v = (r, v') \<Longrightarrow>
      I v' \<and> (\<exists>ys. pr v' = pr v @ ys \<and> prefix ys (E i) \<and> (r = None \<longrightarrow> ys = E i))"
  shows "I w \<Longrightarrow> for_loop body xs w = (r, w') \<Longrightarrow>
      I w' \<and> (\<exists>ys. pr w' = pr w @ ys \<and> prefix ys (concat (map E xs))
                 \<and> (r = None \<longrightarrow> ys = concat (map E xs)))"
proof (induction xs arbitrary: w)
  case Nil
  then show ?case by simp
next
  case (Cons x xs)
  obtain r1 w1 where b: "body x w = (r1, w1)" by (cases "body x w")
  from step[OF Cons.prems(1) b] obtain ys1 where
    i1: "I w1" and p1: "pr w1 = pr w @ ys1" and pre1: "prefix ys1 (E x)"
    and full1: "r1 = None \<longrightarrow> ys1 = E x" by blast
  show ?case
  proof (cases r1)
    case (Some e)
    with Cons.prems(2) b have "r = Some e" "w' = w1" by simp_all
    with i1 p1 pre1 show ?thesis by (auto intro: prefix_order.trans)
  next
    case None
    with Cons.prems(2) b have l: "for_loop body xs w1 = (r, w')" by simp
    from Cons.IH[OF i1 l] obtain ys2 where
      i2: "I w'" and p2: "pr w' = pr w1 @ ys2" and pre2: "prefix ys2 (concat (map E xs))"
      and full2: "r = None \<longrightarrow> ys2 = concat (map E xs)" by blast
    from None full1 have e1: "ys1 = E x" by simp
    have "pr w' = pr w @ (E x @ ys2)" using p1 p2 e1 by simp
    moreover have "prefix (E x @ ys2) (concat (map E (x # xs)))" using pre2 by simp
    moreover have "r = None \<longrightarrow> E x @ ys2 = concat (map E (x # xs))" using full2 by simp
    ultimately show ?thesis using i2 by blast
  qed
qed

lemma ducking_calls_append [simp]:
  "ducking_calls (xs @ ys) = ducking_calls xs @ ducking_calls ys"
  by (simp add: ducking_calls_def)

lemma ducking_calls_simps [simp]:
  "ducking_calls [] = []"
  "ducking_calls (ProcessDucking_call mb ml msr sb sl ssr p r # tr)
     = (mb, ml, msr, sb, sl, ssr, p) # ducking_calls tr"
  "ducking_calls (FreeProcessingResult_call h # tr) = ducking_calls tr"
  "ducking_calls (ProcessCompressor_call b l s q a # tr) = ducking_calls tr"
  by (simp_all add: ducking_calls_def)

lemma duck_channel_calls:
  assumes "main \<noteq> out" and I: "tensors w main = Tm"
    and d: "duck_channel m p msr ssr main out b s c w = (r, w')"
  shows "tensors w' main = Tm
         \<and> (\<exists>ys. ducking_calls (trace w') = ducking_calls (trace w) @ ys
                \<and> prefix ys [ducking_call_args Tm msr ssr p s (b, c)]
                \<and> (r = None \<longrightarrow> ys = [ducking_call_args Tm msr ssr p s (b, c)]))"
proof -
  have "writes_only out w w'"
    using duck_channel_writes_only[of out w m p msr ssr main b s c] d by simp
  then have m: "tensors w' main = Tm" using assms(1) I by (simp add: writes_only_def)
  let ?mc = "tensors w main ! b ! c"
  let ?a = "ducking_call_args Tm msr ssr p s (b, c)"
  obtain r1 w1 where pd:
    "process_ducking m ?mc (int (length ?mc)) msr s (int (length s)) ssr p w = (r1, w1)"
    by (cases "process_ducking m ?mc (int (length ?mc)) msr s (int (length s)) ssr p w")
  have a: "?a = (?mc, int (length ?mc), msr, s, int (length s), ssr, p)"
    using I by (simp add: ducking_call_args_def channel_def)
  have c1: "(r1 = None \<and> ducking_calls (trace w1) = ducking_calls (trace w))
            \<or> ducking_calls (trace w1) = ducking_calls (trace w) @ [?a]"
    using pd unfolding a
    by (auto simp: process_ducking_def split: option.splits if_splits prod.splits)
  show ?thesis
  proof (cases r1)
    case None
    with d pd have "r = Some Returned" "w' = w1" by (simp_all add: duck_channel_def Let_def)
    with c1 m show ?thesis by auto
  next
    case (Some hr)
    obtain h res where hr: "hr = (h, res)" by (cases hr)
    from c1 Some have t1: "ducking_calls (trace w1) = ducking_calls (trace w) @ [?a]" by simp
    show ?thesis
    proof (cases "copy_result out b c res w1")
      case (Inl e)
      with d pd Some hr have "w' = w1" by (simp add: duck_channel_def Let_def)
      with t1 m show ?thesis by auto
    next
      case (Inr w2)
      with d pd Some hr have w': "w' = free_processing_result m (Some (h, res)) w2"
        by (simp add: duck_channel_def Let_def)
      have "trace w2 = trace w1" using copy_result_trace[OF Inr] by simp
      moreover have "ducking_calls (trace w') = ducking_calls (trace w2)"
        unfolding w' by (auto simp: free_processing_result_def split: option.splits bool.splits)
      ultimately show ?thesis using t1 m by auto
    qed
  qed
qed


lemma expected_batch:
  "concat (map (\<lambda>c. case sidechain_mono Tsc b of
                        Inl e \<Rightarrow> []
                      | Inr s \<Rightarrow> [f s (b, c)]) cs)
     = (case sidechain_mono Tsc b of Inl e \<Rightarrow> [] | Inr s \<Rightarrow> map (\<lambda>c. f s (b, c)) cs)"
  by (induction cs) (auto split: sum.splits)

lemma concat_map_concat:
  "concat (map f (concat xss)) = concat (map (\<lambda>xs. concat (map f xs)) xss)"
  by (induction xss) simp_all

lemma expected_ducking_calls_batches:
  "expected_ducking_calls Tm Tsc msr ssr p =
     concat (map (\<lambda>b. case sidechain_mono Tsc b of
                         Inl e \<Rightarrow> []
                       | Inr s \<Rightarrow> map (\<lambda>c. ducking_call_args Tm msr ssr p s (b, c))
                                    [0..<length (shape Tm ! b)])
               [0..<length (shape Tm)])"
  unfolding expected_ducking_calls_def channel_indices_def
  by (simp add: concat_map_concat comp_def expected_batch)

lemma duck_batch_calls:
  assumes "main \<noteq> out" "sc \<noteq> out" and I: "tensors w main = Tm \<and> tensors w sc = Tsc"
    and d: "duck_batch m p msr ssr main sc out sh b w = (r, w')"
  shows "(tensors w' main = Tm \<and> tensors w' sc = Tsc)
         \<and> (\<exists>ys. ducking_calls (trace w') = ducking_calls (trace w) @ ys
                \<and> prefix ys (case sidechain_mono Tsc b of
                                Inl e \<Rightarrow> []
                              | Inr s \<Rightarrow> map (\<lambda>c. ducking_call_args Tm msr ssr p s (b, c))
                                           [0..<length (sh ! b)])
                \<and> (r = None \<longrightarrow>
                     ys = (case sidechain_mono Tsc b of
                             Inl e \<Rightarrow> []
                           | Inr s \<Rightarrow> map (\<lambda>c. ducking_call_args Tm msr ssr p s (b, c))
                                        [0..<length (sh ! b)])))"
proof -
  have "writes_only out w w'"
    using duck_batch_writes_only[of out w m p msr ssr main sc sh b] d by simp
  then have s: "tensors w' sc = Tsc" using assms(2) I by (simp add: writes_only_def)
  show ?thesis
  proof (cases "sidechain_mono Tsc b")
    case (Inl e)
    with d I have "w' = w" "r = Some (Raised e)" by (simp_all add: duck_batch_def)
    with Inl I show ?thesis by simp
  next
    case (Inr sn)
    with d I have l:
      "for_loop (duck_channel m p msr ssr main out b sn) [0..<length (sh ! b)] w = (r, w')"
      by (simp add: duck_batch_def)
    have "tensors w' main = Tm
          \<and> (\<exists>ys. ducking_calls (trace w') = ducking_calls (trace w) @ ys
                \<and> prefix ys (concat (map (\<lambda>c. [ducking_call_args Tm msr ssr p sn (b, c)])
                                      [0..<length (sh ! b)]))
                \<and> (r = None \<longrightarrow>
                     ys = concat (map (\<lambda>c. [ducking_call_args Tm msr ssr p sn (b, c)])
                                   [0..<length (sh ! b)])))"
      by (rule for_loop_prefix[where I = "\<lambda>v. tensors v main = Tm"
              and pr = "\<lambda>v. ducking_calls (trace v)", OF _ _ l])
         (use I duck_channel_calls[OF assms(1)] in \<open>blast+\<close>)
    moreover have "concat (map (\<lambda>c. [f c]) cs) = map f cs" for f :: "nat \<Rightarrow> ducking_call" and cs
      by (induction cs) simp_all
    ultimately show ?thesis using Inr s by simp
  qed
qed

lemma apply_ducking_try_eq:
  "apply_ducking_try m ma sa p w =
     (let w1 = snd (zeros_like (waveform ma) w);
          sh = shape (tensors w (waveform ma));
          loop = for_loop (duck_batch m p (sample_rate ma) (sample_rate sa) (waveform ma)
                   (waveform sa) (n_tensors w) sh) [0..<length sh] w1
      in ((fst loop, n_tensors w), snd loop))"
  if "waveform ma \<noteq> n_tensors w"
  using that by (simp add: apply_ducking_try_def zeros_like_def Let_def split: prod.splits)

lemma apply_ducking_try_calls:
  assumes ma: "waveform ma < n_tensors w" and sa: "waveform sa < n_tensors w"
    and t: "apply_ducking_try m ma sa p w = ((r, out), w')"
  shows "\<exists>ys. ducking_calls (trace w') = ducking_calls (trace w) @ ys
           \<and> prefix ys (expected_ducking_calls (tensors w (waveform ma)) (tensors w (waveform sa))
                          (sample_rate ma) (sample_rate sa) p)
           \<and> (r = None \<longrightarrow>
                ys = expected_ducking_calls (tensors w (waveform ma)) (tensors w (waveform sa))
                       (sample_rate ma) (sample_rate sa) p)"
proof -
  let ?Tm = "tensors w (waveform ma)" and ?Tsc = "tensors w (waveform sa)"
  let ?w1 = "snd (zeros_like (waveform ma) w)"
  let ?sh = "shape ?Tm"
  let ?body = "duck_batch m p (sample_rate ma) (sample_rate sa) (waveform ma)
                 (waveform sa) (n_tensors w) ?sh"
  have ne: "waveform ma \<noteq> n_tensors w" "waveform sa \<noteq> n_tensors w" using ma sa by simp_all
  have l: "for_loop ?body [0..<length ?sh] ?w1 = (r, w')"
    using t unfolding apply_ducking_try_eq[OF ne(1)] Let_def
    by (metis prod.collapse prod.inject)
  have I1: "tensors ?w1 (waveform ma) = ?Tm \<and> tensors ?w1 (waveform sa) = ?Tsc"
    using ne by (simp add: zeros_like_def)
  have "(tensors w' (waveform ma) = ?Tm \<and> tensors w' (waveform sa) = ?Tsc)
     \<and> (\<exists>ys. ducking_calls (trace w') = ducking_calls (trace ?w1) @ ys
          \<and> prefix ys (concat (map (\<lambda>b. case sidechain_mono ?Tsc b of
                         Inl e \<Rightarrow> []
                       | Inr s \<Rightarrow> map (\<lambda>c. ducking_call_args ?Tm (sample_rate ma)
                                          (sample_rate sa) p s (b, c))
                                    [0..<length (?sh ! b)]) [0..<length ?sh]))
          \<and> (r = None \<longrightarrow> ys = concat (map (\<lambda>b. case sidechain_mono ?Tsc b of
                         Inl e \<Rightarrow> []
                       | Inr s \<Rightarrow> map (\<lambda>c. ducking_call_args ?Tm (sample_rate ma)
                                          (sample_rate sa) p s (b, c))
                                    [0..<length (?sh ! b)]) [0..<length ?sh])))"
    by (rule for_loop_prefix[where I = "\<lambda>v. tensors v (waveform ma) = ?Tm
              \<and> tensors v (waveform sa) = ?Tsc"
              and pr = "\<lambda>v. ducking_calls (trace v)", OF _ I1 l])
       (use duck_batch_calls[OF ne] in \<open>blast\<close>)
  then show ?thesis
    by (simp add: expected_ducking_calls_batches zeros_like_def)
qed

subsection \<open>The iterations of the ducking loops that complete\<close>

lemma duck_run_Nil: "duck_run Tm msr ssr p out w w []"
  by (simp add: duck_run_def)

lemma duck_runD:
  assumes "duck_run Tm msr ssr p out w w' steps"
  shows "trace w' = trace w @ concat (map (duck_events Tm msr ssr p) steps)"
    and "map step_ptr steps = [n_results w..<n_results w + length steps]"
    and "n_results w' = n_results w + length steps"
    and "\<And>st. st \<in> set steps \<Longrightarrow> channel (tensors w' out) (step_idx st)
            = overwrite (step_data st) (channel (tensors w out) (step_idx st))"
    and "\<And>bc. bc \<notin> step_idx ` set steps \<Longrightarrow>
            channel (tensors w' out) bc = channel (tensors w out) bc"
  using assms unfolding duck_run_def by blast+

lemma duck_runI:
  assumes "trace w' = trace w @ concat (map (duck_events Tm msr ssr p) steps)"
    and "map step_ptr steps = [n_results w..<n_results w + length steps]"
    and "n_results w' = n_results w + length steps"
    and "\<And>st. st \<in> set steps \<Longrightarrow> channel (tensors w' out) (step_idx st)
            = overwrite (step_data st) (channel (tensors w out) (step_idx st))"
    and "\<And>bc. bc \<notin> step_idx ` set steps \<Longrightarrow>
            channel (tensors w' out) bc = channel (tensors w out) bc"
  shows "duck_run Tm msr ssr p out w w' steps"
  using assms unfolding duck_run_def by blast

lemma duck_run_append:
  assumes r1: "duck_run Tm msr ssr p out w w1 steps1"
    and r2: "duck_run Tm msr ssr p out w1 w2 steps2"
    and dj: "step_idx ` set steps1 \<inter> step_idx ` set steps2 = {}"
  shows "duck_run Tm msr ssr p out w w2 (steps1 @ steps2)"
proof (rule duck_runI)
  let ?n = "n_results w" and ?k1 = "length steps1" and ?k2 = "length steps2"
  note d1 = duck_runD[OF r1] and d2 = duck_runD[OF r2]
  have n1: "n_results w1 = ?n + ?k1" by (rule d1(3))
  show "trace w2 = trace w @ concat (map (duck_events Tm msr ssr p) (steps1 @ steps2))"
    using d1(1) d2(1) by simp
  have e: "?n + length (steps1 @ steps2) = ?n + ?k1 + ?k2" by simp
  have u: "[?n..<?n + ?k1 + ?k2] = [?n..<?n + ?k1] @ [?n + ?k1..<?n + ?k1 + ?k2]"
    by (rule upt_add_eq_append) simp
  have p2: "map step_ptr steps2 = [?n + ?k1..<?n + ?k1 + ?k2]"
    using d2(2) unfolding n1 .
  show "map step_ptr (steps1 @ steps2) = [?n..<?n + length (steps1 @ steps2)]"
    unfolding e u using d1(2) p2 by simp
  show "n_results w2 = ?n + length (steps1 @ steps2)"
    using d2(3) unfolding n1 by simp
  show "channel (tensors w2 out) (step_idx st)
              = overwrite (step_data st) (channel (tensors w out) (step_idx st))"
    if "st \<in> set (steps1 @ steps2)" for st
  proof (cases "st \<in> set steps1")
    case True
    then have "step_idx st \<notin> step_idx ` set steps2" using dj by blast
    then have "channel (tensors w2 out) (step_idx st) = channel (tensors w1 out) (step_idx st)"
      by (rule d2(5))
    also have "\<dots> = overwrite (step_data st) (channel (tensors w out) (step_idx st))"
      using True by (rule d1(4))
    finally show ?thesis .
  next
    case False
    with that have s2: "st \<in> set steps2" by simp
    then have "step_idx st \<notin> step_idx ` set steps1" using dj by blast
    then have "channel (tensors w1 out) (step_idx st) = channel (tensors w out) (step_idx st)"
      by (rule d1(5))
    moreover have "channel (tensors w2 out) (step_idx st)
        = overwrite (step_data st) (channel (tensors w1 out) (step_idx st))"
      using s2 by (rule d2(4))
    ultimately show ?thesis by simp
  qed
  show "channel (tensors w2 out) bc = channel (tensors w out) bc"
    if "bc \<notin> step_idx ` set (steps1 @ steps2)" for bc
  proof -
    from that have a: "bc \<notin> step_idx ` set steps1" and b: "bc \<notin> step_idx ` set steps2"
      by (simp_all add: image_Un)
    show ?thesis using d1(5)[OF a] d2(5)[OF b] by simp
  qed
qed

lemma process_ducking_Some:
  assumes "process_ducking m mb ml msr sb sl ssr p w = (Some (h, res), w1)"
  shows "loaded m" and "lib m \<noteq> None" and "h = n_results w"
    and "n_results w1 = Suc (n_results w)" and "tensors w1 = tensors w"
    and "trace w1 = trace w @ [ProcessDucking_call mb ml msr sb sl ssr p
                                 (Some (n_results w, length_res res, result_data res))]"
  using assms
  by (auto simp: process_ducking_def split: option.splits if_splits prod.splits)

lemma copy_result_channel:
  assumes "copy_result out b c res w = Inr w'" and "in_shape (shape (tensors w out)) (b, c)"
  shows "channel (tensors w' out) bc =
           (if bc = (b, c) then overwrite (result_data res) (channel (tensors w out) (b, c))
            else channel (tensors w out) bc)"
proof -
  let ?old = "tensors w out ! b ! c"
  let ?n = "nat (length_res res)"
  have rng: "b < length (tensors w out)" "c < length (tensors w out ! b)"
    using assms(2) by (simp_all add: in_shape_shape)
  show ?thesis
  proof (cases "?n \<le> length ?old")
    case True
    with assms(1) have
      "w' = set_channel out b c (result_data res @ drop ?n ?old) w"
      by (auto simp: copy_result_def Let_def split: if_splits)
    then have "channel (tensors w' out) bc =
        (if bc = (b, c) then result_data res @ drop ?n ?old else channel (tensors w out) bc)"
      using rng by (simp add: set_channel_def channel_update)
    moreover have "overwrite (result_data res) (channel (tensors w out) (b, c))
        = result_data res @ drop ?n ?old"
      using True by (simp add: overwrite_def channel_def)
    ultimately show ?thesis by simp
  next
    case False
    with assms(1) have w': "w' = w" and n: "?n = 1"
      by (auto simp: copy_result_def Let_def split: if_splits)
    from False n have "?old = []" by (cases ?old) simp_all
    then show ?thesis using w' by (simp add: overwrite_def channel_def)
  qed
qed

lemma free_processing_result_loaded:
  assumes "loaded m" "lib m \<noteq> None"
  shows "trace (free_processing_result m (Some (h, res)) w) = trace w @ [FreeProcessingResult_call h]"
    and "tensors (free_processing_result m (Some (h, res)) w) = tensors w"
    and "n_results (free_processing_result m (Some (h, res)) w) = n_results w"
  using assms by (auto simp: free_processing_result_def split: option.splits bool.splits)

lemma duck_channel_step:
  assumes ne: "main \<noteq> out" and rng: "in_shape (shape (tensors w out)) (b, c)"
    and d: "duck_channel m p msr ssr main out b s c w = (None, w')"
  shows "\<exists>st. step_idx st = (b, c) \<and> step_control st = s
              \<and> duck_run (tensors w main) msr ssr p out w w' [st]"
proof -
  let ?mc = "tensors w main ! b ! c"
  obtain r1 w1 where pd:
    "process_ducking m ?mc (int (length ?mc)) msr s (int (length s)) ssr p w = (r1, w1)"
    by (cases "process_ducking m ?mc (int (length ?mc)) msr s (int (length s)) ssr p w")
  from d pd obtain h res where r1: "r1 = Some (h, res)"
    by (cases r1) (auto simp: duck_channel_def Let_def)
  note ps = process_ducking_Some[OF pd[unfolded r1]]
  from d pd r1 obtain w2 where cr: "copy_result out b c res w1 = Inr w2"
    and w': "w' = free_processing_result m (Some (h, res)) w2"
    by (cases "copy_result out b c res w1") (auto simp: duck_channel_def Let_def)
  note fr = free_processing_result_loaded[OF ps(1,2), of h res w2]
  note ct = copy_result_trace[OF cr]
  have rng1: "in_shape (shape (tensors w1 out)) (b, c)" using rng ps(5) by simp
  note cc = copy_result_channel[OF cr rng1]
  let ?st = "\<lparr>step_idx = (b, c), step_control = s, step_ptr = n_results w,
              step_len = length_res res, step_data = result_data res\<rparr>"
  have tr: "trace w' = trace w @ duck_events (tensors w main) msr ssr p ?st"
    using fr(1) ct ps(3,6) w' by (simp add: duck_events_def channel_def)
  have nr: "n_results w' = Suc (n_results w)" using fr(3) ct ps(4) w' by simp
  have ch: "channel (tensors w' out) bc =
           (if bc = (b, c) then overwrite (result_data res) (channel (tensors w out) (b, c))
            else channel (tensors w out) bc)" for bc
    using cc[of bc] fr(2) ps(5) w' by simp
  have "duck_run (tensors w main) msr ssr p out w w' [?st]"
    by (rule duck_runI) (simp_all add: tr nr ch)
  then show ?thesis by (intro exI[of _ ?st]) simp
qed


lemma duck_channel_keeps:
  assumes "main \<noteq> out" and "duck_channel m p msr ssr main out b s c w = (r, w')"
  shows "tensors w' main = tensors w main" and "shape (tensors w' out) = shape (tensors w out)"
  using duck_channel_writes_only[of out w m p msr ssr main b s c] assms
  by (simp_all add: writes_only_def)

lemma duck_channels_complete:
  assumes ne: "main \<noteq> out"
  shows "distinct cs \<Longrightarrow> \<forall>c\<in>set cs. in_shape (shape (tensors w out)) (b, c) \<Longrightarrow>
     for_loop (duck_channel m p msr ssr main out b s) cs w = (None, w') \<Longrightarrow>
     \<exists>steps. map step_idx steps = map (Pair b) cs \<and> (\<forall>st\<in>set steps. step_control st = s)
       \<and> duck_run (tensors w main) msr ssr p out w w' steps"
proof (induction cs arbitrary: w)
  case Nil
  then have "w' = w" by simp
  then show ?case using duck_run_Nil by (intro exI[of _ "[]"]) simp
next
  case (Cons c cs)
  obtain r1 w1 where b1: "duck_channel m p msr ssr main out b s c w = (r1, w1)"
    by (cases "duck_channel m p msr ssr main out b s c w")
  from Cons.prems(3) b1 have r1: "r1 = None"
    and l: "for_loop (duck_channel m p msr ssr main out b s) cs w1 = (None, w')"
    by (cases r1; simp)+
  note k = duck_channel_keeps[OF ne b1]
  from Cons.prems(2) have rng: "in_shape (shape (tensors w out)) (b, c)" by simp
  from duck_channel_step[OF ne rng b1[unfolded r1]] obtain st where
    st: "step_idx st = (b, c)" "step_control st = s"
    and run1: "duck_run (tensors w main) msr ssr p out w w1 [st]" by blast
  have d: "distinct cs" and cn: "c \<notin> set cs" using Cons.prems(1) by simp_all
  have rng1: "\<forall>c\<in>set cs. in_shape (shape (tensors w1 out)) (b, c)"
    using Cons.prems(2) k(2) by simp
  from Cons.IH[OF d rng1 l] obtain steps where
    ix: "map step_idx steps = map (Pair b) cs" and ctl: "\<forall>st\<in>set steps. step_control st = s"
    and run2: "duck_run (tensors w main) msr ssr p out w1 w' steps"
    unfolding k(1) by blast
  have "step_idx ` set steps = Pair b ` set cs"
    using ix by (metis image_set)
  then have dj: "step_idx ` set [st] \<inter> step_idx ` set steps = {}" using st(1) cn by auto
  from duck_run_append[OF run1 run2 dj]
  have "duck_run (tensors w main) msr ssr p out w w' (st # steps)" by simp
  moreover have "map step_idx (st # steps) = map (Pair b) (c # cs)" using st(1) ix by simp
  moreover have "\<forall>x\<in>set (st # steps). step_control x = s" using st(2) ctl by simp
  ultimately show ?case by blast
qed

lemma duck_batch_keeps:
  assumes "main \<noteq> out" "sc \<noteq> out" and "duck_batch m p msr ssr main sc out sh b w = (r, w')"
  shows "tensors w' main = tensors w main" and "tensors w' sc = tensors w sc"
    and "shape (tensors w' out) = shape (tensors w out)"
  using duck_batch_writes_only[of out w m p msr ssr main sc sh b] assms
  by (simp_all add: writes_only_def)

lemma duck_batches_complete:
  assumes ne: "main \<noteq> out" "sc \<noteq> out"
  shows "distinct bs \<Longrightarrow> \<forall>b\<in>set bs. b < length sh \<Longrightarrow> shape (tensors w out) = sh \<Longrightarrow>
     for_loop (duck_batch m p msr ssr main sc out sh) bs w = (None, w') \<Longrightarrow>
     \<exists>steps. map step_idx steps = concat (map (\<lambda>b. map (Pair b) [0..<length (sh ! b)]) bs)
       \<and> (\<forall>st\<in>set steps. sidechain_mono (tensors w sc) (fst (step_idx st)) = Inr (step_control st))
       \<and> (\<forall>b\<in>set bs. \<exists>s. sidechain_mono (tensors w sc) b = Inr s)
       \<and> duck_run (tensors w main) msr ssr p out w w' steps"
proof (induction bs arbitrary: w)
  case Nil
  then have "w' = w" by simp
  then show ?case using duck_run_Nil by (intro exI[of _ "[]"]) simp
next
  case (Cons b bs)
  obtain r1 w1 where b1: "duck_batch m p msr ssr main sc out sh b w = (r1, w1)"
    by (cases "duck_batch m p msr ssr main sc out sh b w")
  from Cons.prems(4) b1 have r1: "r1 = None"
    and l: "for_loop (duck_batch m p msr ssr main sc out sh) bs w1 = (None, w')"
    by (cases r1; simp)+
  note k = duck_batch_keeps[OF ne b1]
  from b1 r1 obtain s where s: "sidechain_mono (tensors w sc) b = Inr s"
    and inner: "for_loop (duck_channel m p msr ssr main out b s) [0..<length (sh ! b)] w
                  = (None, w1)"
    by (cases "sidechain_mono (tensors w sc) b") (auto simp: duck_batch_def)
  have bl: "b < length sh" using Cons.prems(2) by simp
  have rng: "\<forall>c\<in>set [0..<length (sh ! b)]. in_shape (shape (tensors w out)) (b, c)"
    using bl Cons.prems(3) by (simp add: in_shape_def)
  from duck_channels_complete[OF ne(1) distinct_upt rng inner] obtain steps1 where
    ix1: "map step_idx steps1 = map (Pair b) [0..<length (sh ! b)]"
    and ctl1: "\<forall>st\<in>set steps1. step_control st = s"
    and run1: "duck_run (tensors w main) msr ssr p out w w1 steps1" by blast
  have d: "distinct bs" and bn: "b \<notin> set bs" using Cons.prems(1) by simp_all
  have rb: "\<forall>b\<in>set bs. b < length sh" using Cons.prems(2) by simp
  have sh1: "shape (tensors w1 out) = sh" using k(3) Cons.prems(3) by simp
  from Cons.IH[OF d rb sh1 l] obtain steps2 where
    ix2: "map step_idx steps2 = concat (map (\<lambda>b. map (Pair b) [0..<length (sh ! b)]) bs)"
    and ctl2: "\<forall>st\<in>set steps2.
                 sidechain_mono (tensors w sc) (fst (step_idx st)) = Inr (step_control st)"
    and ok2: "\<forall>b\<in>set bs. \<exists>s. sidechain_mono (tensors w sc) b = Inr s"
    and run2: "duck_run (tensors w main) msr ssr p out w1 w' steps2"
    unfolding k(1) k(2) by blast
  have f1: "fst ` step_idx ` set steps1 \<subseteq> {b}"
  proof -
    have "step_idx ` set steps1 = Pair b ` set [0..<length (sh ! b)]"
      using ix1 by (metis image_set)
    then show ?thesis by auto
  qed
  have f2: "fst ` step_idx ` set steps2 \<subseteq> set bs"
  proof -
    have "step_idx ` set steps2 = set (concat (map (\<lambda>b. map (Pair b) [0..<length (sh ! b)]) bs))"
      using ix2 by (metis image_set)
    then show ?thesis by auto
  qed
  have dj: "step_idx ` set steps1 \<inter> step_idx ` set steps2 = {}"
  proof (rule ccontr)
    assume "step_idx ` set steps1 \<inter> step_idx ` set steps2 \<noteq> {}"
    then obtain bc where "bc \<in> step_idx ` set steps1" "bc \<in> step_idx ` set steps2" by blast
    then have "fst bc = b" "fst bc \<in> set bs" using f1 f2 by auto
    with bn show False by simp
  qed
  note run = duck_run_append[OF run1 run2 dj]
  have ix: "map step_idx (steps1 @ steps2)
      = concat (map (\<lambda>b. map (Pair b) [0..<length (sh ! b)]) (b # bs))"
    using ix1 ix2 by simp
  have ctl: "\<forall>st\<in>set (steps1 @ steps2).
               sidechain_mono (tensors w sc) (fst (step_idx st)) = Inr (step_control st)"
  proof
    fix st assume "st \<in> set (steps1 @ steps2)"
    then consider "st \<in> set steps1" | "st \<in> set steps2" by auto
    then show "sidechain_mono (tensors w sc) (fst (step_idx st)) = Inr (step_control st)"
    proof cases
      case 1
      then have "fst (step_idx st) = b" using f1 by auto
      with 1 ctl1 s show ?thesis by simp
    next
      case 2
      with ctl2 show ?thesis by simp
    qed
  qed
  have ok: "\<forall>x\<in>set (b # bs). \<exists>s. sidechain_mono (tensors w sc) x = Inr s"
    using s ok2 by simp
  from run ix ctl ok show ?case by blast
qed

lemma overwrite_zeros:
  "overwrite d (replicate L 0) = take L d @ replicate (L - length d) 0"
  by (simp add: overwrite_def)

lemma channel_zeros:
  "in_shape (shape T) bc \<Longrightarrow>
     channel (map (map (map (\<lambda>x. 0))) T) bc = replicate (length (channel T bc)) 0"
  by (simp add: channel_map_map map_replicate_const)

lemma apply_ducking_try_complete:
  assumes ma: "waveform ma < n_tensors w" and sa: "waveform sa < n_tensors w"
    and t: "apply_ducking_try m ma sa p w = ((None, out), w')"
  shows "\<exists>steps. map step_idx steps = channel_indices (shape (tensors w (waveform ma)))
       \<and> (\<forall>st\<in>set steps. sidechain_mono (tensors w (waveform sa)) (fst (step_idx st))
                             = Inr (step_control st))
       \<and> (\<forall>b<length (tensors w (waveform ma)).
             \<exists>s. sidechain_mono (tensors w (waveform sa)) b = Inr s)
       \<and> trace w' = trace w @ concat (map (duck_events (tensors w (waveform ma))
                                         (sample_rate ma) (sample_rate sa) p) steps)
       \<and> map step_ptr steps = [n_results w..<n_results w + length steps]
       \<and> (\<forall>st\<in>set steps. channel (tensors w' out) (step_idx st)
             = overwrite (step_data st)
                 (replicate (length (channel (tensors w (waveform ma)) (step_idx st))) 0))"
proof -
  let ?Tm = "tensors w (waveform ma)" and ?Tsc = "tensors w (waveform sa)"
  let ?w1 = "snd (zeros_like (waveform ma) w)"
  let ?sh = "shape ?Tm"
  let ?o = "n_tensors w"
  let ?body = "duck_batch m p (sample_rate ma) (sample_rate sa) (waveform ma)
                 (waveform sa) ?o ?sh"
  have ne: "waveform ma \<noteq> ?o" "waveform sa \<noteq> ?o" using ma sa by simp_all
  have out: "out = ?o" using apply_ducking_try_frame(1)[OF t] .
  have l: "for_loop ?body [0..<length ?sh] ?w1 = (None, w')"
    using t unfolding apply_ducking_try_eq[OF ne(1)] Let_def
    by (metis prod.collapse prod.inject)
  have w1: "tensors ?w1 (waveform ma) = ?Tm" "tensors ?w1 (waveform sa) = ?Tsc"
    "tensors ?w1 ?o = map (map (map (\<lambda>x. 0))) ?Tm" "trace ?w1 = trace w"
    "n_results ?w1 = n_results w"
    using ne by (simp_all add: zeros_like_def)
  have sh1: "shape (tensors ?w1 ?o) = ?sh" unfolding w1(3) by simp
  have rb: "\<forall>b\<in>set [0..<length ?sh]. b < length ?sh" by simp
  from duck_batches_complete[OF ne distinct_upt rb sh1 l] obtain steps where
    ix: "map step_idx steps = channel_indices ?sh"
    and ctl: "\<forall>st\<in>set steps. sidechain_mono ?Tsc (fst (step_idx st)) = Inr (step_control st)"
    and ok: "\<forall>b\<in>set [0..<length ?sh]. \<exists>s. sidechain_mono ?Tsc b = Inr s"
    and run: "duck_run ?Tm (sample_rate ma) (sample_rate sa) p ?o ?w1 w' steps"
    unfolding w1(1,2) channel_indices_def by blast
  note r = duck_runD[OF run]
  have wr: "channel (tensors w' out) (step_idx st)
      = overwrite (step_data st) (replicate (length (channel ?Tm (step_idx st))) 0)"
    if "st \<in> set steps" for st
  proof -
    have "step_idx st \<in> set (channel_indices ?sh)" using that ix by (metis image_eqI image_set)
    then have "in_shape ?sh (step_idx st)" by (simp add: set_channel_indices)
    then show ?thesis using r(4)[OF that] unfolding out w1(3) by (simp add: channel_zeros)
  qed
  have ok': "\<forall>b<length ?Tm. \<exists>s. sidechain_mono ?Tsc b = Inr s"
    using ok by (simp add: shape_def)
  from ix ctl ok' r(1) r(2) wr show ?thesis unfolding w1(4,5) by blast
qed


subsection \<open>The calls of the two nodes\<close>

lemma apply_compression_trace:
  assumes "loaded m" "lib m = Some l"
  shows "trace (snd (apply_compression m a p w)) =
     trace w @
       map (compressor_event (sample_rate a) p (tensors w (waveform a))
              (tensors (snd (apply_compression m a p w))
                 (waveform (fst (apply_compression m a p w)))))
         (filter (\<lambda>bc. channel (tensors w (waveform a)) bc \<noteq> [])
            (channel_indices (shape (tensors w (waveform a)))))"
proof -
  let ?w1 = "snd (clone (waveform a) w)"
  let ?t = "n_tensors w"
  have r: "\<forall>bc\<in>set (channel_indices (shape (tensors w (waveform a)))).
             in_shape (shape (tensors ?w1 ?t)) bc"
    by (simp add: clone_tensors set_channel_indices)
  from compress_fold[OF assms distinct_channel_indices r, of p "sample_rate a", THEN conjunct1]
  show ?thesis
    unfolding apply_compression_loaded[OF assms(1)] snd_conv fst_conv
    by (simp add: clone_tensors)
qed

lemma for_loop_Some:
  assumes inv: "\<And>i v r v'. I v \<Longrightarrow> body i v = (r, v') \<Longrightarrow> I v'"
  shows "I w \<Longrightarrow> for_loop body xs w = (Some e, w') \<Longrightarrow>
           \<exists>i\<in>set xs. \<exists>v. I v \<and> fst (body i v) = Some e"
proof (induction xs arbitrary: w)
  case Nil
  then show ?case by simp
next
  case (Cons x xs)
  obtain r1 w1 where b: "body x w = (r1, w1)" by (cases "body x w")
  show ?case
  proof (cases r1)
    case (Some e1)
    with Cons.prems(2) b have "e1 = e" by simp
    with Some b Cons.prems(1) have "I w \<and> fst (body x w) = Some e" by simp
    then show ?thesis by auto
  next
    case None
    with Cons.prems(2) b have l: "for_loop body xs w1 = (Some e, w')" by simp
    from inv[OF Cons.prems(1) b] have "I w1" .
    from Cons.IH[OF this l] show ?thesis by auto
  qed
qed

lemma duck_channel_not_Raised: "fst (duck_channel m p msr ssr main out b s c w) \<noteq> Some (Raised e)"
  by (auto simp: duck_channel_def Let_def split: prod.splits option.splits sum.splits)

lemma duck_batch_Raised:
  assumes "fst (duck_batch m p msr ssr main sc out sh b w) = Some (Raised e)"
  shows "sidechain_mono (tensors w sc) b = Inl e"
proof (cases "sidechain_mono (tensors w sc) b")
  case (Inl e')
  with assms show ?thesis by (simp add: duck_batch_def)
next
  case (Inr s)
  obtain r w' where l:
    "for_loop (duck_channel m p msr ssr main out b s) [0..<length (sh ! b)] w = (r, w')"
    by (cases "for_loop (duck_channel m p msr ssr main out b s) [0..<length (sh ! b)] w")
  with assms Inr have "r = Some (Raised e)" by (simp add: duck_batch_def)
  from for_loop_Some[where I = "\<lambda>v. True", OF _ _ l[unfolded this]]
  have "\<exists>c v. fst (duck_channel m p msr ssr main out b s c v) = Some (Raised e)" by auto
  with duck_channel_not_Raised show ?thesis by blast
qed

lemma apply_ducking_try_Raised:
  assumes sa: "waveform sa < n_tensors w"
    and t: "fst (fst (apply_ducking_try m ma sa p w)) = Some (Raised e)"
  shows "\<exists>b<length (tensors w (waveform ma)).
           sidechain_mono (tensors w (waveform sa)) b = Inl e"
proof -
  let ?Tsc = "tensors w (waveform sa)"
  let ?w1 = "snd (zeros_like (waveform ma) w)"
  let ?sh = "shape (tensors ?w1 (waveform ma))"
  let ?body = "duck_batch m p (sample_rate ma) (sample_rate sa) (waveform ma)
                 (waveform sa) (n_tensors w) ?sh"
  have ne: "waveform sa \<noteq> n_tensors w" using sa by simp
  have eq: "apply_ducking_try m ma sa p w
      = ((fst (for_loop ?body [0..<length ?sh] ?w1), n_tensors w),
         snd (for_loop ?body [0..<length ?sh] ?w1))"
    by (simp add: apply_ducking_try_def zeros_like_def Let_def split: prod.splits)
  obtain w' where l: "for_loop ?body [0..<length ?sh] ?w1 = (Some (Raised e), w')"
    using t unfolding eq by (cases "for_loop ?body [0..<length ?sh] ?w1") simp
  have I1: "tensors ?w1 (waveform sa) = ?Tsc" using ne by (simp add: zeros_like_def)
  have "\<exists>i\<in>set [0..<length ?sh]. \<exists>v. tensors v (waveform sa) = ?Tsc
          \<and> fst (?body i v) = Some (Raised e)"
  proof (rule for_loop_Some[where I = "\<lambda>v. tensors v (waveform sa) = ?Tsc", OF _ I1 l])
    fix i v r v'
    assume a: "tensors v (waveform sa) = ?Tsc" and b: "?body i v = (r, v')"
    show "tensors v' (waveform sa) = ?Tsc"
      using duck_batch_writes_only[of "n_tensors w" v m p "sample_rate ma" "sample_rate sa"
              "waveform ma" "waveform sa" ?sh i] a b ne
      by (simp add: writes_only_def)
  qed
  then obtain b v where b: "b < length ?sh" and v: "tensors v (waveform sa) = ?Tsc"
    and r: "fst (?body b v) = Some (Raised e)" by auto
  from duck_batch_Raised[OF r] v have "sidechain_mono ?Tsc b = Inl e" by simp
  moreover have "length ?sh = length (tensors w (waveform ma))"
    by (simp add: shape_def zeros_like_def)
  ultimately show ?thesis using b by auto
qed

lemma sidechain_mono_empty:
  assumes "b < length Tsc" "Tsc ! b \<noteq> []" "\<forall>ch\<in>set (Tsc ! b). ch = []"
  shows "sidechain_mono Tsc b = Inr []"
proof -
  obtain ch rest where c: "Tsc ! b = ch # rest" using assms(2) by (cases "Tsc ! b") auto
  with assms(3) have "ch = []" by simp
  with assms(1) c show ?thesis
    by (simp add: sidechain_mono_def sum_dim0_def Let_def)
qed

lemma sidechain_mono_mean:
  assumes "b < length Tsc" "1 < length (Tsc ! b)"
  shows "sidechain_mono Tsc b =
     Inr (map (\<lambda>i. (\<Sum>c<length (Tsc ! b). Tsc ! b ! c ! i) / real (length (Tsc ! b)))
            [0..<length (Tsc ! b ! 0)])"
proof -
  obtain ch rest where c: "Tsc ! b = ch # rest" using assms(2) by (cases "Tsc ! b") auto
  have s: "sum_list (map (\<lambda>x. x ! i) xs) = (\<Sum>c<length xs. xs ! c ! i)"
    for xs :: "sample list list" and i
    by (simp add: sum_list_sum_nth atLeast0LessThan)
  have "sum_dim0 (Tsc ! b) = map (\<lambda>i. \<Sum>c<length (Tsc ! b). Tsc ! b ! c ! i)
                               [0..<length (Tsc ! b ! 0)]"
    unfolding sum_dim0_def s using c by simp
  then show ?thesis using assms by (simp add: sidechain_mono_def Let_def comp_def)
qed

lemma sidechain_mono_single:
  assumes "b < length Tsc" "length (Tsc ! b) = 1"
  shows "sidechain_mono Tsc b = Inr (Tsc ! b ! 0)"
  using assms by (auto simp: sidechain_mono_def Let_def)

lemma set_expected_ducking_calls:
  assumes "x \<in> set (expected_ducking_calls Tm Tsc msr ssr p)"
  shows "\<exists>bc s. in_shape (shape Tm) bc \<and> sidechain_mono Tsc (fst bc) = Inr s
           \<and> x = ducking_call_args Tm msr ssr p s bc"
proof -
  from assms obtain bc where bc: "bc \<in> set (channel_indices (shape Tm))"
    and x: "x \<in> set (case sidechain_mono Tsc (fst bc) of
                       Inl e \<Rightarrow> []
                     | Inr s \<Rightarrow> [ducking_call_args Tm msr ssr p s bc])"
    unfolding expected_ducking_calls_def by auto
  from x obtain s where "sidechain_mono Tsc (fst bc) = Inr s"
    and "x = ducking_call_args Tm msr ssr p s bc"
    by (cases "sidechain_mono Tsc (fst bc)") auto
  moreover from bc have "in_shape (shape Tm) bc" by (simp add: set_channel_indices)
  ultimately show ?thesis by blast
qed


subsection \<open>Shapes of the results\<close>

lemma apply_compression_shape:
  "shape (tensors (snd (apply_compression m a cp w)) (waveform (fst (apply_compression m a cp w))))
     = shape (tensors w (waveform a))"
proof (cases "loaded m")
  case True
  obtain out w' where r: "apply_compression m a cp w = (out, w')"
    by (cases "apply_compression m a cp w")
  from apply_compression_frame(3)[OF True r] r show ?thesis by simp
next
  case False
  then show ?thesis by (simp add: apply_compression_def)
qed

lemma apply_ducking_shape:
  "shape (tensors (snd (apply_ducking m ma sa dp w)) (waveform (fst (apply_ducking m ma sa dp w))))
     = shape (tensors w (waveform ma))"
proof -
  obtain r out w' where t: "apply_ducking_try m ma sa dp w = ((r, out), w')"
    by (metis surj_pair)
  note f = apply_ducking_try_frame[OF t]
  show ?thesis
  proof (cases "loaded m")
    case False
    then show ?thesis by (simp add: apply_ducking_def)
  next
    case True
    show ?thesis
    proof (cases r)
      case None
      with True t f(3) show ?thesis by (simp add: apply_ducking_def)
    next
      case (Some e)
      then have eq: "apply_ducking m ma sa dp w = (ma, w')"
        using True t by (simp add: apply_ducking_def)
      show ?thesis
      proof (cases "waveform ma = n_tensors w")
        case True
        with f(1) f(3) eq show ?thesis by simp
      next
        case False
        with f(2) eq show ?thesis by simp
      qed
    qed
  qed
qed

lemma shape_eq_empty_channel:
  assumes "shape T' = shape T" "in_shape (shape T) bc" "channel T bc = []"
  shows "channel T' bc = []"
proof -
  from assms(2) have "fst bc < length T" "snd bc < length (T ! fst bc)"
    by (simp_all add: in_shape_shape)
  from shape_eq_lengths(3)[OF assms(1) this] assms(3) show ?thesis by (simp add: channel_def)
qed

lemma sidechain_mono_ok:
  assumes "b < length Tsc" "Tsc ! b \<noteq> []"
  shows "\<exists>s. sidechain_mono Tsc b = Inr s"
  using assms by (simp add: sidechain_mono_def Let_def)

lemma apply_ducking_loaded:
  assumes "loaded m"
  shows "snd (apply_ducking m ma sa dp w) = snd (apply_ducking_try m ma sa dp w)"
    and "fst (fst (apply_ducking_try m ma sa dp w)) = None \<Longrightarrow>
           fst (apply_ducking m ma sa dp w)
             = \<lparr>waveform = n_tensors w, sample_rate = sample_rate ma\<rparr>"
proof -
  obtain r out w' where t: "apply_ducking_try m ma sa dp w = ((r, out), w')"
    by (metis surj_pair)
  show "snd (apply_ducking m ma sa dp w) = snd (apply_ducking_try m ma sa dp w)"
    using assms t by (cases r) (simp_all add: apply_ducking_def)
  show "fst (apply_ducking m ma sa dp w)
             = \<lparr>waveform = n_tensors w, sample_rate = sample_rate ma\<rparr>"
    if "fst (fst (apply_ducking_try m ma sa dp w)) = None"
    using assms t that apply_ducking_try_frame(1)[OF t] by (simp add: apply_ducking_def)
qed

lemma apply_ducking_calls:
  assumes ma: "waveform ma < n_tensors w" and sa: "waveform sa < n_tensors w"
  shows "\<exists>ys. ducking_calls (trace (snd (apply_ducking m ma sa dp w)))
                  = ducking_calls (trace w) @ ys
           \<and> prefix ys (expected_ducking_calls (tensors w (waveform ma))
                          (tensors w (waveform sa)) (sample_rate ma) (sample_rate sa) dp)"
proof (cases "loaded m")
  case False
  then have "snd (apply_ducking m ma sa dp w) = w" by (simp add: apply_ducking_def)
  then show ?thesis by simp
next
  case True
  obtain r out w' where t: "apply_ducking_try m ma sa dp w = ((r, out), w')"
    by (metis surj_pair)
  from apply_ducking_try_calls[OF ma sa t] apply_ducking_loaded(1)[OF True, of ma sa dp w] t
  show ?thesis by auto
qed

subsection \<open>Exceptions and NULL results end the run\<close>

lemma for_loop_None_inv:
  assumes step: "\<And>i v v'. i \<in> set xs \<Longrightarrow> I v \<Longrightarrow> body i v = (None, v') \<Longrightarrow> I v' \<and> R v v'"
    and refl: "\<And>v. R v v"
    and trans: "\<And>a b c. R a b \<Longrightarrow> R b c \<Longrightarrow> R a c"
  shows "I w \<Longrightarrow> for_loop body xs w = (None, w') \<Longrightarrow> I w' \<and> R w w'"
  using step
proof (induction xs arbitrary: w)
  case Nil
  then show ?case by (simp add: refl)
next
  case (Cons x xs)
  obtain r w1 where b: "body x w = (r, w1)" by (cases "body x w")
  from Cons.prems(2) b have r: "r = None" and l: "for_loop body xs w1 = (None, w')"
    by (cases r; simp)+
  from Cons.prems(3)[of x w w1] Cons.prems(1) b r have i1: "I w1" and r1: "R w w1" by simp_all
  have "I w' \<and> R w1 w'"
  proof (rule Cons.IH[OF i1 l])
    fix i v v'
    assume "i \<in> set xs" "I v" "body i v = (None, v')"
    then show "I v' \<and> R v v'" using Cons.prems(3)[of i v v'] by simp
  qed
  with r1 show ?case using trans by blast
qed

lemma copied_since_refl: "copied_since w w"
  by (simp add: copied_since_def)

lemma copied_since_trans: "copied_since a b \<Longrightarrow> copied_since b c \<Longrightarrow> copied_since a c"
  by (auto simp: copied_since_def)

lemma copy_result_Inl_iff:
  "(\<exists>e. copy_result out b c res w = Inl e) \<longleftrightarrow>
     length_res res < 0
     \<or> (length (tensors w out ! b ! c) < nat (length_res res) \<and> nat (length_res res) \<noteq> 1)"
  by (auto simp: copy_result_def Let_def)

lemma duck_channel_None_copied:
  assumes ne: "main \<noteq> out"
    and I: "tensors w main = Tm \<and> shape (tensors w out) = shape Tm"
    and rng: "in_shape (shape Tm) (b, c)"
    and d: "duck_channel m p msr ssr main out b s c w = (None, w')"
  shows "(tensors w' main = Tm \<and> shape (tensors w' out) = shape Tm) \<and> copied_since w w'"
proof -
  note k = duck_channel_keeps[OF ne d]
  let ?mc = "tensors w main ! b ! c"
  obtain r1 w1 where pd:
    "process_ducking m ?mc (int (length ?mc)) msr s (int (length s)) ssr p w = (r1, w1)"
    by (cases "process_ducking m ?mc (int (length ?mc)) msr s (int (length s)) ssr p w")
  from d pd obtain h res where r1: "r1 = Some (h, res)"
    by (cases r1) (auto simp: duck_channel_def Let_def)
  note ps = process_ducking_Some[OF pd[unfolded r1]]
  from d pd r1 obtain w2 where cr: "copy_result out b c res w1 = Inr w2"
    and w': "w' = free_processing_result m (Some (h, res)) w2"
    by (cases "copy_result out b c res w1") (auto simp: duck_channel_def Let_def)
  note fr = free_processing_result_loaded[OF ps(1,2), of h res w2]
  note ct = copy_result_trace[OF cr]
  have rb: "b < length Tm" "c < length (Tm ! b)" using rng by (simp_all add: in_shape_shape)
  have len: "length (tensors w1 out ! b ! c) = length ?mc"
    using shape_eq_lengths(3)[OF conjunct2[OF I] rb] I ps(5) by simp
  have "\<not> (\<exists>e. copy_result out b c res w1 = Inl e)" using cr by simp
  then have ok: "\<not> (length_res res < 0
      \<or> (length ?mc < nat (length_res res) \<and> nat (length_res res) \<noteq> 1))"
    unfolding copy_result_Inl_iff len .
  have tr: "trace w' = trace w @
      [ProcessDucking_call ?mc (int (length ?mc)) msr s (int (length s)) ssr p
         (Some (n_results w, length_res res, result_data res)),
       FreeProcessingResult_call h]"
    using fr(1) ct ps(6) w' by simp
  have "\<forall>ev\<in>set [ProcessDucking_call ?mc (int (length ?mc)) msr s (int (length s)) ssr p
         (Some (n_results w, length_res res, result_data res)),
       FreeProcessingResult_call h]. \<not> copy_raises ev"
    using ok by simp
  with tr have "copied_since w w'" unfolding copied_since_def by blast
  with k I show ?thesis by simp
qed

lemma duck_batch_None_copied:
  assumes ne: "main \<noteq> out"
    and I: "tensors w main = Tm \<and> shape (tensors w out) = shape Tm"
    and b: "b < length (shape Tm)"
    and d: "duck_batch m p msr ssr main sc out (shape Tm) b w = (None, w')"
  shows "(tensors w' main = Tm \<and> shape (tensors w' out) = shape Tm) \<and> copied_since w w'"
proof (cases "sidechain_mono (tensors w sc) b")
  case (Inl e)
  with d show ?thesis by (simp add: duck_batch_def)
next
  case (Inr s)
  with d have l:
    "for_loop (duck_channel m p msr ssr main out b s) [0..<length (shape Tm ! b)] w = (None, w')"
    by (simp add: duck_batch_def)
  show ?thesis
  proof (rule for_loop_None_inv[where I = "\<lambda>v. tensors v main = Tm \<and> shape (tensors v out) = shape Tm"
          and R = copied_since, OF _ copied_since_refl copied_since_trans I l])
    fix c v v'
    assume c: "c \<in> set [0..<length (shape Tm ! b)]"
      and i: "tensors v main = Tm \<and> shape (tensors v out) = shape Tm"
      and s: "duck_channel m p msr ssr main out b s c v = (None, v')"
    from b c have "in_shape (shape Tm) (b, c)" by (simp add: in_shape_def)
    from duck_channel_None_copied[OF ne i this s]
    show "(tensors v' main = Tm \<and> shape (tensors v' out) = shape Tm) \<and> copied_since v v'" .
  qed
qed

lemma apply_ducking_try_None_copied:
  assumes ma: "waveform ma < n_tensors w"
    and t: "apply_ducking_try m ma sa p w = ((None, out), w')"
  shows "copied_since w w'"
proof -
  let ?Tm = "tensors w (waveform ma)"
  let ?w1 = "snd (zeros_like (waveform ma) w)"
  let ?sh = "shape ?Tm"
  let ?o = "n_tensors w"
  let ?body = "duck_batch m p (sample_rate ma) (sample_rate sa) (waveform ma)
                 (waveform sa) ?o ?sh"
  have ne: "waveform ma \<noteq> ?o" using ma by simp
  have l: "for_loop ?body [0..<length ?sh] ?w1 = (None, w')"
    using t unfolding apply_ducking_try_eq[OF ne] Let_def
    by (metis prod.collapse prod.inject)
  have I1: "tensors ?w1 (waveform ma) = ?Tm \<and> shape (tensors ?w1 ?o) = shape ?Tm"
    using ne by (simp add: zeros_like_def)
  have "(tensors w' (waveform ma) = ?Tm \<and> shape (tensors w' ?o) = shape ?Tm)
          \<and> copied_since ?w1 w'"
  proof (rule for_loop_None_inv[where I = "\<lambda>v. tensors v (waveform ma) = ?Tm
            \<and> shape (tensors v ?o) = shape ?Tm"
          and R = copied_since, OF _ copied_since_refl copied_since_trans I1 l])
    fix b v v'
    assume b: "b \<in> set [0..<length ?sh]"
      and i: "tensors v (waveform ma) = ?Tm \<and> shape (tensors v ?o) = shape ?Tm"
      and s: "?body b v = (None, v')"
    from b have "b < length (shape ?Tm)" by simp
    from duck_batch_None_copied[OF ne i this s]
    show "(tensors v' (waveform ma) = ?Tm \<and> shape (tensors v' ?o) = shape ?Tm)
            \<and> copied_since v v'" .
  qed
  then show ?thesis by (simp add: copied_since_def zeros_like_def)
qed

lemma process_ducking_no_lib:
  "lib m = None \<Longrightarrow> process_ducking m mb ml msr sb sl ssr p w = (None, w)"
  by (simp add: process_ducking_def)

lemma duck_channel_no_lib:
  "lib m = None \<Longrightarrow> trace (snd (duck_channel m p msr ssr main out b s c w)) = trace w"
  by (simp add: duck_channel_def Let_def process_ducking_no_lib)

lemma apply_ducking_try_no_lib:
  assumes "lib m = None"
  shows "trace (snd (apply_ducking_try m ma sa p w)) = trace w"
proof -
  let ?w1 = "snd (zeros_like (waveform ma) w)"
  let ?sh = "shape (tensors ?w1 (waveform ma))"
  let ?body = "duck_batch m p (sample_rate ma) (sample_rate sa) (waveform ma)
                 (waveform sa) (n_tensors w) ?sh"
  have eq: "apply_ducking_try m ma sa p w
      = ((fst (for_loop ?body [0..<length ?sh] ?w1), n_tensors w),
         snd (for_loop ?body [0..<length ?sh] ?w1))"
    by (simp add: apply_ducking_try_def zeros_like_def Let_def split: prod.splits)
  have inner: "trace (snd (for_loop (duck_channel m p msr ssr main out b s) cs v)) = trace v"
    for msr ssr main out b s cs v
    by (rule for_loop_rel[where R = "\<lambda>a b. trace b = trace a"])
       (simp_all add: duck_channel_no_lib[OF assms])
  have batch: "trace (snd (duck_batch m p msr ssr main sc out sh b v)) = trace v"
    for msr ssr main sc out sh b v
    by (cases "sidechain_mono (tensors v sc) b") (simp_all add: duck_batch_def inner)
  have "trace (snd (for_loop ?body [0..<length ?sh] ?w1)) = trace ?w1"
    by (rule for_loop_rel[where R = "\<lambda>a b. trace b = trace a"]) (simp_all add: batch)
  then show ?thesis unfolding eq by (simp add: zeros_like_def)
qed

lemma duck_events_not_Nil: "concat (map (duck_events Tm msr ssr p) steps) = [] \<Longrightarrow> steps = []"
  by (cases steps) (simp_all add: duck_events_def)

lemma apply_ducking_try_None_cases:
  assumes ma: "waveform ma < n_tensors w" and sa: "waveform sa < n_tensors w"
    and t: "apply_ducking_try m ma sa p w = ((None, out), w')"
  shows "\<forall>b<length (tensors w (waveform ma)).
           \<exists>s. sidechain_mono (tensors w (waveform sa)) b = Inr s"
    and "lib m = None \<Longrightarrow> channel_indices (shape (tensors w (waveform ma))) = []"
proof -
  from apply_ducking_try_complete[OF ma sa t] obtain steps where
    ix: "map step_idx steps = channel_indices (shape (tensors w (waveform ma)))"
    and ok: "\<forall>b<length (tensors w (waveform ma)).
               \<exists>s. sidechain_mono (tensors w (waveform sa)) b = Inr s"
    and tr: "trace w' = trace w @ concat (map (duck_events (tensors w (waveform ma))
                                         (sample_rate ma) (sample_rate sa) p) steps)"
    by blast
  show "\<forall>b<length (tensors w (waveform ma)).
           \<exists>s. sidechain_mono (tensors w (waveform sa)) b = Inr s" by (rule ok)
  show "channel_indices (shape (tensors w (waveform ma))) = []" if "lib m = None"
  proof -
    from apply_ducking_try_no_lib[OF that, of ma sa p w] t have "trace w' = trace w" by simp
    with tr have "steps = []" using duck_events_not_Nil by auto
    with ix show ?thesis by simp
  qed
qed

section \<open>Properties of the nodes and of the library manager\<close>

lemmas example_defs = example_lib_def example_manager_def unloaded_manager_def example_world_def
  channelless_world_def handleless_manager_def
  example_main_def example_sidechain_def example_empty_def example_cparams_def example_dparams_def

lemmas node_defs = apply_ducking_def apply_ducking_try_def duck_batch_def duck_channel_def
  copy_result_def sidechain_mono_def sum_dim0_def process_ducking_def free_processing_result_def
  zeros_like_def set_channel_def shape_def result_data_def
  apply_compression_def compress_channel_def process_compressor_def clone_def inplace_def

text \<open>
  Claim C5. \<open>free_processing_result\<close> with a null pointer changes nothing, whatever the
  manager; with the library not loaded it changes nothing, whatever the pointer; with
  the library loaded and a non-null pointer it makes exactly one \<open>FreeProcessingResult\<close>
  call, on that pointer. The function has no raising branch.
\<close>

theorem free_processing_result_null_safe:
  "free_processing_result m None w = w
   \<and> (\<not> loaded m \<or> lib m = None \<longrightarrow> free_processing_result m ptr w = w)
   \<and> (loaded m \<and> lib m = Some l \<longrightarrow>
        trace (free_processing_result m (Some (h, res)) w) = trace w @ [FreeProcessingResult_call h])"
  by (auto simp: free_processing_result_def split: bool.splits option.splits prod.splits)

theorem free_processing_result_null_safe_witness:
  "free_processing_result (example_manager 0) None example_world = example_world
   \<and> lib unloaded_manager = None
   \<and> free_processing_result unloaded_manager
        (Some (0, \<lparr>audio_ptr = (\<lambda>i. 0), length_res = 0, sample_rate_res = 44100\<rparr>)) example_world
      = example_world
   \<and> loaded (example_manager 0) \<and> lib (example_manager 0) = Some (example_lib 0)
   \<and> trace (free_processing_result (example_manager 0)
        (Some (0, \<lparr>audio_ptr = (\<lambda>i. 0), length_res = 0, sample_rate_res = 44100\<rparr>)) example_world)
      = [FreeProcessingResult_call 0]"
  using free_processing_result_null_safe
          [of "example_manager 0" example_world
              "Some (0, \<lparr>audio_ptr = (\<lambda>i. 0), length_res = 0, sample_rate_res = 44100\<rparr>)"
              "example_lib 0" 0 "\<lparr>audio_ptr = (\<lambda>i. 0), length_res = 0, sample_rate_res = 44100\<rparr>"]
        free_processing_result_null_safe
          [of unloaded_manager example_world
              "Some (0, \<lparr>audio_ptr = (\<lambda>i. 0), length_res = 0, sample_rate_res = 44100\<rparr>)"]
  by (simp add: example_manager_def unloaded_manager_def example_world_def)

lemma get_library_manager_Some:
  "library_manager g = Some m \<Longrightarrow> get_library_manager env base g = (m, g)"
  by (simp add: get_library_manager_def)

lemma get_library_manager_calls_Some:
  "library_manager g = Some m \<Longrightarrow>
     get_library_manager_calls env bases g = (replicate (length bases) m, g)"
  by (induction bases) (simp_all add: get_library_manager_Some)

text \<open>
  Claim C10. From the initial module state, any sequence of calls of
  \<open>get_library_manager\<close> returns, at every call and whatever its argument, the manager
  that the first call made (the result of \<open>load_library\<close> on a manager of the first
  base name, loaded or not); one manager has been constructed and \<open>load_library\<close> has
  been called once. From any state, a call after a call returns the same manager and
  leaves the module state as it is. (Instances are compared by value: object identity is
  not modelled.)
\<close>

theorem get_library_manager_idempotent:
  "get_library_manager_calls env (base # rest) module_init =
     (replicate (Suc (length rest)) (snd (load_library env (init_manager base))),
      \<lparr>library_manager = Some (snd (load_library env (init_manager base))),
       constructed = 1, load_calls = 1\<rparr>)
   \<and> get_library_manager env base2 (snd (get_library_manager env base g)) =
       (fst (get_library_manager env base g), snd (get_library_manager env base g))"
  by (simp add: get_library_manager_def module_init_def get_library_manager_calls_Some Let_def
           split: option.splits)

theorem get_library_manager_idempotent_witness:
  "get_library_manager_calls (example_platform False) [''lib/effects'', ''other''] module_init =
     ([init_manager ''lib/effects'', init_manager ''lib/effects''],
      \<lparr>library_manager = Some (init_manager ''lib/effects''), constructed = 1, load_calls = 1\<rparr>)
   \<and> get_library_manager_calls (example_platform True) [''lib/effects'', ''other''] module_init =
     ([example_manager 0, example_manager 0],
      \<lparr>library_manager = Some (example_manager 0), constructed = 1, load_calls = 1\<rparr>)"
  using get_library_manager_idempotent
          [of "example_platform False" "''lib/effects''" "[''other'']" "''x''" module_init]
        get_library_manager_idempotent
          [of "example_platform True" "''lib/effects''" "[''other'']" "''x''" module_init]
  by (simp add: load_library_def lib_names_def init_manager_def example_platform_def
        example_manager_def)

text \<open>
  Claim C1. The waveform of the audio that \<open>apply_compression\<close> returns, and of the audio
  that \<open>apply_ducking\<close> returns, has the shape of the (main) input waveform: the same
  batch elements, channels and sample counts. This covers every return path: library not
  loaded, NULL result, exceptions caught, and normal completion.
\<close>

theorem output_shape_preserved:
  "shape (tensors (snd (apply_compression m a cp w)) (waveform (fst (apply_compression m a cp w))))
     = shape (tensors w (waveform a))
   \<and> shape (tensors (snd (apply_ducking m ma sa dp w)) (waveform (fst (apply_ducking m ma sa dp w))))
     = shape (tensors w (waveform ma))"
  using apply_compression_shape apply_ducking_shape by blast

theorem output_shape_preserved_witness:
  "shape (tensors (snd (apply_compression (example_manager 0) example_main example_cparams
       example_world))
     (waveform (fst (apply_compression (example_manager 0) example_main example_cparams
       example_world)))) = [[2, 2]]
   \<and> shape (tensors (snd (apply_ducking (example_manager 0) example_main example_sidechain
       example_dparams example_world))
     (waveform (fst (apply_ducking (example_manager 0) example_main example_sidechain
       example_dparams example_world)))) = [[2, 2]]"
  using output_shape_preserved
          [of "example_manager 0" example_main example_cparams example_world
              example_main example_sidechain example_dparams]
  by (simp add: example_world_def example_main_def shape_def)

text \<open>
  Claim C8. Every tensor that exists before the call, so in particular each input
  waveform, holds the same samples after \<open>apply_compression\<close> and after \<open>apply_ducking\<close>:
  the nodes write to the tensor they allocate only. (That \<open>astype\<close> yields a fresh array
  is numpy's behaviour, taken as given.)
\<close>

theorem inputs_not_mutated:
  "r < n_tensors w \<Longrightarrow>
     tensors (snd (apply_compression m a cp w)) r = tensors w r
     \<and> tensors (snd (apply_ducking m ma sa dp w)) r = tensors w r"
proof
  assume r: "r < n_tensors w"
  show "tensors (snd (apply_compression m a cp w)) r = tensors w r"
  proof (cases "loaded m")
    case True
    obtain out w' where e: "apply_compression m a cp w = (out, w')"
      by (cases "apply_compression m a cp w")
    from apply_compression_frame(2)[OF True e, of r] r e show ?thesis by simp
  next
    case False
    then show ?thesis by (simp add: apply_compression_def)
  qed
  obtain x out w' where t: "apply_ducking_try m ma sa dp w = ((x, out), w')"
    by (metis surj_pair)
  from apply_ducking_try_frame(2)[OF t, of r] r have "tensors w' r = tensors w r" by simp
  with t show "tensors (snd (apply_ducking m ma sa dp w)) r = tensors w r"
    by (cases "loaded m"; cases x) (simp_all add: apply_ducking_def)
qed

theorem inputs_not_mutated_witness:
  "(0::nat) < n_tensors example_world \<and> (1::nat) < n_tensors example_world
   \<and> tensors (snd (apply_compression (example_manager 0) example_main example_cparams
        example_world)) 0 = [[[2, 4], [6, 8]]]
   \<and> tensors (snd (apply_compression (example_manager 0) example_main example_cparams
        example_world)) 3 = [[[1, 2], [3, 4]]]
   \<and> tensors (snd (apply_ducking (example_manager 0) example_main example_sidechain
        example_dparams example_world)) 0 = [[[2, 4], [6, 8]]]
   \<and> tensors (snd (apply_ducking (example_manager 0) example_main example_sidechain
        example_dparams example_world)) 1 = [[[1, 1], [3, 5]]]
   \<and> tensors (snd (apply_ducking (example_manager 0) example_main example_sidechain
        example_dparams example_world)) 3 = [[[1, 2], [3, 4]]]"
proof -
  have n: "(0::nat) < n_tensors example_world" "(1::nat) < n_tensors example_world"
    by (simp_all add: example_world_def)
  have t: "tensors example_world 0 = [[[2, 4], [6, 8]]]"
    "tensors example_world 1 = [[[1, 1], [3, 5]]]"
    by (simp_all add: example_world_def)
  have c3: "tensors (snd (apply_compression (example_manager 0) example_main example_cparams
        example_world)) 3 = [[[1, 2], [3, 4]]]"
    by (simp add: example_defs node_defs Let_def upt_rec)
  have d3: "tensors (snd (apply_ducking (example_manager 0) example_main example_sidechain
        example_dparams example_world)) 3 = [[[1, 2], [3, 4]]]"
    by (simp add: example_defs node_defs Let_def upt_rec)
  show ?thesis
    using n t c3 d3
      inputs_not_mutated[OF n(1), of "example_manager 0" example_main example_cparams
        example_main example_sidechain example_dparams]
      inputs_not_mutated[OF n(2), of "example_manager 0" example_main example_cparams
        example_main example_sidechain example_dparams]
    by simp
qed


text \<open>
  Claim C3. With the library not loaded, \<open>apply_compression\<close> returns its input audio and
  \<open>apply_ducking\<close> returns \<open>main_audio\<close>, and nothing else has changed. \<open>apply_ducking\<close>
  returns \<open>main_audio\<close>
  \<^item> when reading the sidechain of a batch element of the main waveform raises
    (\<open>sidechain_mono\<close> is \<open>Inl\<close>);
  \<^item> when one of its \<open>ProcessDucking\<close> calls returned NULL;
  \<^item> when copying the result of one of its \<open>ProcessDucking\<close> calls raises: for a channel
    as long as the main buffer passed, \<open>copy_result\<close> is \<open>Inl\<close> exactly when the recorded
    call satisfies \<open>copy_raises\<close>;
  \<^item> when \<open>process_ducking\<close> returns \<open>None\<close> for want of a library handle, the main
    waveform having a channel.
  The tensor of \<open>main_audio\<close> holds its original samples afterwards.
\<close>

theorem fallback_returns_original:
  "(\<not> loaded m \<longrightarrow>
      apply_compression m a cp w = (a, w) \<and> apply_ducking m ma sa dp w = (ma, w))
   \<and> (waveform ma < n_tensors w \<and> waveform sa < n_tensors w
        \<and> b < length (tensors w (waveform ma))
        \<and> sidechain_mono (tensors w (waveform sa)) b = Inl e
        \<longrightarrow> fst (apply_ducking m ma sa dp w) = ma)
   \<and> (trace (snd (apply_ducking m ma sa dp w)) = trace w @ evs \<and> null_result ev \<and> ev \<in> set evs
        \<longrightarrow> fst (apply_ducking m ma sa dp w) = ma)
   \<and> (waveform ma < n_tensors w
        \<and> trace (snd (apply_ducking m ma sa dp w)) = trace w @ evs \<and> copy_raises ev \<and> ev \<in> set evs
        \<longrightarrow> fst (apply_ducking m ma sa dp w) = ma)
   \<and> (length mb = length (tensors v out ! i ! j) \<longrightarrow>
        (\<exists>x. copy_result out i j res v = Inl x)
          = copy_raises (ProcessDucking_call mb ml msr sb sl ssr q
                           (Some (h, length_res res, result_data res))))
   \<and> (waveform ma < n_tensors w \<and> waveform sa < n_tensors w \<and> lib m = None
        \<and> channel_indices (shape (tensors w (waveform ma))) \<noteq> []
        \<longrightarrow> fst (apply_ducking m ma sa dp w) = ma)
   \<and> (waveform ma < n_tensors w \<longrightarrow>
        tensors (snd (apply_ducking m ma sa dp w)) (waveform ma) = tensors w (waveform ma))"
proof -
  obtain r out' w' where t: "apply_ducking_try m ma sa dp w = ((r, out'), w')"
    by (metis surj_pair)
  have early: "fst (apply_ducking m ma sa dp w) = ma" if "r \<noteq> None \<or> \<not> loaded m"
    using that t by (cases "loaded m"; cases r) (simp_all add: apply_ducking_def)
  have fin: "snd (apply_ducking m ma sa dp w) = w'" if "loaded m"
    using that t by (cases r) (simp_all add: apply_ducking_def)
  have c1: "\<not> loaded m \<longrightarrow>
      apply_compression m a cp w = (a, w) \<and> apply_ducking m ma sa dp w = (ma, w)"
    by (simp add: apply_compression_def apply_ducking_def)
  have c2: "waveform ma < n_tensors w \<and> waveform sa < n_tensors w
        \<and> b < length (tensors w (waveform ma))
        \<and> sidechain_mono (tensors w (waveform sa)) b = Inl e
        \<longrightarrow> fst (apply_ducking m ma sa dp w) = ma"
  proof
    assume h: "waveform ma < n_tensors w \<and> waveform sa < n_tensors w
        \<and> b < length (tensors w (waveform ma))
        \<and> sidechain_mono (tensors w (waveform sa)) b = Inl e"
    from h have a: "waveform ma < n_tensors w" and s: "waveform sa < n_tensors w"
      and bl: "b < length (tensors w (waveform ma))"
      and bad: "sidechain_mono (tensors w (waveform sa)) b = Inl e" by simp_all
    have "r \<noteq> None"
    proof
      assume "r = None"
      from apply_ducking_try_None_cases(1)[OF a s t[unfolded this]] bl
      have "\<exists>s. sidechain_mono (tensors w (waveform sa)) b = Inr s" by simp
      with bad show False by simp
    qed
    then show "fst (apply_ducking m ma sa dp w) = ma" using early by blast
  qed
  have c3: "trace (snd (apply_ducking m ma sa dp w)) = trace w @ evs \<and> null_result ev
        \<and> ev \<in> set evs \<longrightarrow> fst (apply_ducking m ma sa dp w) = ma"
  proof
    assume h: "trace (snd (apply_ducking m ma sa dp w)) = trace w @ evs \<and> null_result ev
               \<and> ev \<in> set evs"
    show "fst (apply_ducking m ma sa dp w) = ma"
    proof (cases "r \<noteq> None \<or> \<not> loaded m")
      case True
      then show ?thesis by (rule early)
    next
      case False
      then have l: "loaded m" and n: "r = None" by simp_all
      from t n have "no_null_since w w'" by (simp add: apply_ducking_try_None_no_null)
      with h fin[OF l] have False by (auto simp: no_null_since_def)
      then show ?thesis ..
    qed
  qed
  have c4: "waveform ma < n_tensors w
        \<and> trace (snd (apply_ducking m ma sa dp w)) = trace w @ evs \<and> copy_raises ev
        \<and> ev \<in> set evs \<longrightarrow> fst (apply_ducking m ma sa dp w) = ma"
  proof
    assume h: "waveform ma < n_tensors w
        \<and> trace (snd (apply_ducking m ma sa dp w)) = trace w @ evs \<and> copy_raises ev
        \<and> ev \<in> set evs"
    show "fst (apply_ducking m ma sa dp w) = ma"
    proof (cases "r \<noteq> None \<or> \<not> loaded m")
      case True
      then show ?thesis by (rule early)
    next
      case False
      then have l: "loaded m" and n: "r = None" by simp_all
      from apply_ducking_try_None_copied[OF conjunct1[OF h] t[unfolded n]]
      have "copied_since w w'" .
      with h fin[OF l] have False by (auto simp: copied_since_def)
      then show ?thesis ..
    qed
  qed
  have c5: "length mb = length (tensors v out ! i ! j) \<longrightarrow>
        (\<exists>x. copy_result out i j res v = Inl x)
          = copy_raises (ProcessDucking_call mb ml msr sb sl ssr q
                           (Some (h, length_res res, result_data res)))"
    by (simp add: copy_result_Inl_iff)
  have c6: "waveform ma < n_tensors w \<and> waveform sa < n_tensors w \<and> lib m = None
        \<and> channel_indices (shape (tensors w (waveform ma))) \<noteq> []
        \<longrightarrow> fst (apply_ducking m ma sa dp w) = ma"
  proof
    assume h: "waveform ma < n_tensors w \<and> waveform sa < n_tensors w \<and> lib m = None
        \<and> channel_indices (shape (tensors w (waveform ma))) \<noteq> []"
    from h have a: "waveform ma < n_tensors w" and s: "waveform sa < n_tensors w"
      and l: "lib m = None"
      and x: "channel_indices (shape (tensors w (waveform ma))) \<noteq> []" by simp_all
    have "r \<noteq> None"
    proof
      assume "r = None"
      from apply_ducking_try_None_cases(2)[OF a s t[unfolded this] l] x show False by simp
    qed
    then show "fst (apply_ducking m ma sa dp w) = ma" using early by blast
  qed
  have c7: "waveform ma < n_tensors w \<longrightarrow>
        tensors (snd (apply_ducking m ma sa dp w)) (waveform ma) = tensors w (waveform ma)"
  proof
    assume "waveform ma < n_tensors w"
    with apply_ducking_try_frame(2)[OF t, of "waveform ma"]
    have "tensors w' (waveform ma) = tensors w (waveform ma)" by simp
    with t show "tensors (snd (apply_ducking m ma sa dp w)) (waveform ma)
                   = tensors w (waveform ma)"
      by (cases "loaded m"; cases r) (simp_all add: apply_ducking_def)
  qed
  from c1 c2 c3 c4 c5 c6 c7 show ?thesis by (intro conjI)
qed

theorem fallback_returns_original_witness:
  "\<not> loaded unloaded_manager
   \<and> apply_compression unloaded_manager example_main example_cparams example_world
       = (example_main, example_world)
   \<and> apply_ducking unloaded_manager example_main example_sidechain example_dparams example_world
       = (example_main, example_world)
   \<and> waveform example_main < n_tensors channelless_world
   \<and> waveform example_empty < n_tensors channelless_world
   \<and> (0::nat) < length (tensors channelless_world (waveform example_main))
   \<and> sidechain_mono (tensors channelless_world (waveform example_empty)) 0 = Inl IndexError
   \<and> fst (apply_ducking (example_manager 0) example_main example_empty example_dparams
        channelless_world) = example_main
   \<and> trace (snd (apply_ducking (example_manager (-1)) example_main example_sidechain
        example_dparams example_world))
      = trace example_world @
          [ProcessDucking_call [2, 4] 2 44100 [2, 3] 2 22050 example_dparams None]
   \<and> null_result (ProcessDucking_call [2, 4] 2 44100 [2, 3] 2 22050 example_dparams None)
   \<and> fst (apply_ducking (example_manager (-1)) example_main example_sidechain example_dparams
        example_world) = example_main
   \<and> waveform example_main < n_tensors example_world
   \<and> trace (snd (apply_ducking (example_manager 1) example_main example_sidechain
        example_dparams example_world))
      = trace example_world @
          [ProcessDucking_call [2, 4] 2 44100 [2, 3] 2 22050 example_dparams
             (Some (0, 3, [1, 2, 0]))]
   \<and> copy_raises (ProcessDucking_call [2, 4] 2 44100 [2, 3] 2 22050 example_dparams
        (Some (0, 3, [1, 2, 0])))
   \<and> fst (apply_ducking (example_manager 1) example_main example_sidechain example_dparams
        example_world) = example_main
   \<and> length [2, 4 :: real] = length (tensors example_world 0 ! 0 ! 0)
   \<and> copy_result 0 0 0 \<lparr>audio_ptr = (\<lambda>i. 0), length_res = 3, sample_rate_res = 44100\<rparr>
        example_world = Inl RuntimeError
   \<and> copy_raises (ProcessDucking_call [2, 4] 2 44100 [2, 3] 2 22050 example_dparams
        (Some (0, 3, [0, 0, 0])))
   \<and> waveform example_sidechain < n_tensors example_world
   \<and> lib handleless_manager = None
   \<and> channel_indices (shape (tensors example_world (waveform example_main))) = [(0, 0), (0, 1)]
   \<and> fst (apply_ducking handleless_manager example_main example_sidechain example_dparams
        example_world) = example_main
   \<and> tensors (snd (apply_ducking (example_manager (-1)) example_main example_sidechain
        example_dparams example_world)) (waveform example_main) = [[[2, 4], [6, 8]]]"
proof -
  let ?res = "\<lparr>audio_ptr = (\<lambda>i::nat. 0::real), length_res = 3, sample_rate_res = 44100\<rparr>"
  let ?null = "ProcessDucking_call [2, 4] 2 44100 [2, 3] 2 22050 example_dparams None"
  let ?long = "ProcessDucking_call [2, 4] 2 44100 [2, 3] 2 22050 example_dparams
                 (Some (0, 3, [1, 2, 0]))"
  have u: "\<not> loaded unloaded_manager" by (simp add: unloaded_manager_def)
  have r: "waveform example_main < n_tensors example_world"
    "waveform example_sidechain < n_tensors example_world"
    "waveform example_main < n_tensors channelless_world"
    "waveform example_empty < n_tensors channelless_world"
    by (simp_all add: example_main_def example_sidechain_def example_empty_def
          example_world_def channelless_world_def)
  have s: "(0::nat) < length (tensors channelless_world (waveform example_main))"
    "sidechain_mono (tensors channelless_world (waveform example_empty)) 0 = Inl IndexError"
    by (simp_all add: channelless_world_def example_world_def example_main_def
          example_empty_def sidechain_mono_def)
  have n: "trace (snd (apply_ducking (example_manager (-1)) example_main example_sidechain
        example_dparams example_world)) = trace example_world @ [?null]"
    by (simp add: example_defs node_defs Let_def upt_rec)
  have nn: "null_result ?null" by simp
  have c: "trace (snd (apply_ducking (example_manager 1) example_main example_sidechain
        example_dparams example_world)) = trace example_world @ [?long]"
    by (simp add: example_defs node_defs Let_def upt_rec)
  have cc: "copy_raises ?long" by simp
  have k: "length [2, 4 :: real] = length (tensors example_world 0 ! 0 ! 0)"
    by (simp add: example_world_def)
  have kr: "copy_result 0 0 0 ?res example_world = Inl RuntimeError"
    by (simp add: copy_result_def example_world_def Let_def)
  have rd: "result_data ?res = [0, 0, 0]" by (simp add: result_data_def upt_rec)
  have hl: "lib handleless_manager = None" by (simp add: handleless_manager_def)
  have ix: "channel_indices (shape (tensors example_world (waveform example_main)))
              = [(0, 0), (0, 1)]"
    by (simp add: example_world_def example_main_def shape_def channel_indices_def upt_rec)
  have t: "tensors example_world (waveform example_main) = [[[2, 4], [6, 8]]]"
    by (simp add: example_main_def example_world_def)
  note th1 = fallback_returns_original[of unloaded_manager example_main example_cparams
        example_world example_main example_sidechain example_dparams]
  have w1: "apply_compression unloaded_manager example_main example_cparams example_world
       = (example_main, example_world)"
    "apply_ducking unloaded_manager example_main example_sidechain example_dparams example_world
       = (example_main, example_world)"
    using th1[THEN conjunct1] u by blast+
  have w2: "fst (apply_ducking (example_manager 0) example_main example_empty example_dparams
        channelless_world) = example_main"
    using fallback_returns_original[where m = "example_manager 0" and ma = example_main
        and sa = example_empty and dp = example_dparams and w = channelless_world
        and b = 0 and e = IndexError, THEN conjunct2, THEN conjunct1] r(3,4) s
    by blast
  have w3: "fst (apply_ducking (example_manager (-1)) example_main example_sidechain
        example_dparams example_world) = example_main"
    using fallback_returns_original[where m = "example_manager (-1)" and ma = example_main
        and sa = example_sidechain and dp = example_dparams and w = example_world
        and evs = "[?null]" and ev = ?null,
        THEN conjunct2, THEN conjunct2, THEN conjunct1] n nn
    by simp
  have w4: "fst (apply_ducking (example_manager 1) example_main example_sidechain
        example_dparams example_world) = example_main"
    using fallback_returns_original[where m = "example_manager 1" and ma = example_main
        and sa = example_sidechain and dp = example_dparams and w = example_world
        and evs = "[?long]" and ev = ?long,
        THEN conjunct2, THEN conjunct2, THEN conjunct2, THEN conjunct1] r(1) c cc
    by simp
  have w5: "copy_raises (ProcessDucking_call [2, 4] 2 44100 [2, 3] 2 22050 example_dparams
        (Some (0, 3, [0, 0, 0])))"
    using fallback_returns_original[where mb = "[2, 4]" and v = example_world and out = 0
        and i = 0 and j = 0 and res = ?res and ml = 2 and msr = 44100 and sb = "[2, 3]"
        and sl = 2 and ssr = 22050 and q = example_dparams and h = 0,
        THEN conjunct2, THEN conjunct2, THEN conjunct2, THEN conjunct2, THEN conjunct1]
      k kr unfolding rd by auto
  have w6: "fst (apply_ducking handleless_manager example_main example_sidechain
        example_dparams example_world) = example_main"
    using fallback_returns_original[where m = handleless_manager and ma = example_main
        and sa = example_sidechain and dp = example_dparams and w = example_world,
        THEN conjunct2, THEN conjunct2, THEN conjunct2, THEN conjunct2, THEN conjunct2,
        THEN conjunct1] r(1,2) hl ix
    by simp
  have w7: "tensors (snd (apply_ducking (example_manager (-1)) example_main example_sidechain
        example_dparams example_world)) (waveform example_main) = [[[2, 4], [6, 8]]]"
    using fallback_returns_original[where m = "example_manager (-1)" and ma = example_main
        and sa = example_sidechain and dp = example_dparams and w = example_world,
        THEN conjunct2, THEN conjunct2, THEN conjunct2, THEN conjunct2, THEN conjunct2,
        THEN conjunct2] r(1) t
    by simp
  show ?thesis
    using u w1 r s w2 n nn w3 c cc w4 k kr w5 hl ix w6 w7 by (intro conjI)
qed

text \<open>
  Claim C7. Let the output of \<open>ProcessCompressor\<close> be a function \<open>g\<close> of its arguments
  (buffer, length, sample rate, parameters), whatever state the library is in. Then
  channel (b, c) of the output of \<open>apply_compression\<close> is a function of channel (b, c) of
  the input, the sample rate and the parameters alone. So two runs on the same samples,
  from any two states of the store and of the library, give the same samples; and the
  loop body run over the channels in any other order gives the same tensor.
\<close>

theorem compression_channelwise_deterministic:
  assumes "loaded m" and "lib m = Some l"
    and pure: "\<And>s buf len sr p. fst (ProcessCompressor l s buf len sr p) = g buf len sr p"
  shows
    "tensors (snd (apply_compression m a p w)) (waveform (fst (apply_compression m a p w)))
       = map (map (compress_pure g (sample_rate a) p)) (tensors w (waveform a))
     \<and> (tensors v (waveform a') = tensors w (waveform a) \<and> sample_rate a' = sample_rate a \<longrightarrow>
          tensors (snd (apply_compression m a' p v)) (waveform (fst (apply_compression m a' p v)))
            = tensors (snd (apply_compression m a p w))
                (waveform (fst (apply_compression m a p w))))
     \<and> (mset idxs = mset (channel_indices (shape (tensors w (waveform a)))) \<longrightarrow>
          tensors (fold (\<lambda>bc. compress_channel m p (sample_rate a) (n_tensors w) (fst bc) (snd bc))
                     idxs (snd (clone (waveform a) w))) (n_tensors w)
            = tensors (snd (apply_compression m a p w))
                (waveform (fst (apply_compression m a p w))))"
proof -
  have any_order: "tensors (fold (\<lambda>bc. compress_channel m p (sample_rate a) (n_tensors w)
                     (fst bc) (snd bc)) idxs (snd (clone (waveform a) w))) (n_tensors w)
      = map (map (compress_pure g (sample_rate a) p)) (tensors w (waveform a))"
    if "distinct idxs" "set idxs = set (channel_indices (shape (tensors w (waveform a))))"
    for idxs w a
    using compress_fold_pure_tensor[OF assms(1,2) pure that(1),
        of "snd (clone (waveform a) w)" "n_tensors w" p "sample_rate a"] that(2)
    by (simp add: clone_tensors set_channel_indices)
  have out: "tensors (snd (apply_compression m a p w)) (waveform (fst (apply_compression m a p w)))
      = map (map (compress_pure g (sample_rate a) p)) (tensors w (waveform a))" for a w
    unfolding apply_compression_loaded[OF assms(1)] snd_conv fst_conv
    by (simp add: any_order[OF distinct_channel_indices refl])
  have perm: "tensors (fold (\<lambda>bc. compress_channel m p (sample_rate a) (n_tensors w)
                     (fst bc) (snd bc)) idxs (snd (clone (waveform a) w))) (n_tensors w)
      = tensors (snd (apply_compression m a p w)) (waveform (fst (apply_compression m a p w)))"
    if ms: "mset idxs = mset (channel_indices (shape (tensors w (waveform a))))"
  proof -
    have "distinct idxs"
      using mset_eq_imp_distinct_iff[OF ms] distinct_channel_indices by simp
    moreover have "set idxs = set (channel_indices (shape (tensors w (waveform a))))"
      using ms by (rule mset_eq_setD)
    ultimately show ?thesis using any_order out by simp
  qed
  show ?thesis using out perm by simp
qed

theorem compression_channelwise_deterministic_witness:
  "loaded (example_manager 0) \<and> lib (example_manager 0) = Some (example_lib 0)
   \<and> (\<forall>s buf len sr p. fst (ProcessCompressor (example_lib 0) s buf len sr p)
        = (\<lambda>i. buf ! i / 2))
   \<and> tensors (snd (apply_compression (example_manager 0) example_main example_cparams
        example_world))
      (waveform (fst (apply_compression (example_manager 0) example_main example_cparams
        example_world)))
      = [[[1, 2], [3, 4]]]
   \<and> mset [(0, 1), (0, 0)] = mset (channel_indices (shape (tensors example_world
        (waveform example_main))))
   \<and> tensors (fold (\<lambda>bc. compress_channel (example_manager 0) example_cparams
          (sample_rate example_main) (n_tensors example_world) (fst bc) (snd bc))
        [(0, 1), (0, 0)] (snd (clone (waveform example_main) example_world)))
      (n_tensors example_world)
      = [[[1, 2], [3, 4]]]"
proof -
  have l: "loaded (example_manager 0)" "lib (example_manager 0) = Some (example_lib 0)"
    by (simp_all add: example_manager_def)
  have p: "fst (ProcessCompressor (example_lib 0) s buf len sr p) = (\<lambda>i. buf ! i / 2)"
    for s buf len sr p
    by (simp add: example_lib_def)
  have ms: "mset [(0, 1), (0, 0)] = mset (channel_indices (shape (tensors example_world
        (waveform example_main))))"
    by (simp add: example_world_def example_main_def shape_def channel_indices_def upt_rec)
  have v: "map (map (compress_pure (\<lambda>buf len sr p i. buf ! i / 2) (sample_rate example_main)
        example_cparams)) (tensors example_world (waveform example_main)) = [[[1, 2], [3, 4]]]"
    by (simp add: example_world_def example_main_def compress_pure_def inplace_def upt_rec)
  show ?thesis
    using l p ms v
      compression_channelwise_deterministic[OF l p, of example_main example_cparams
        example_world example_world example_main "[(0, 1), (0, 0)]"]
    by simp
qed


text \<open>
  Claim C2, at an input where it fails. The library returns, for a main channel of two
  samples, a result of three samples. The assignment into the output slice raises, the
  handler of the inner \<open>try\<close> returns \<open>main_audio\<close>, and the call of
  \<open>free_processing_result\<close> (line 908) is skipped: the trace holds the \<open>ProcessDucking\<close>
  call that returned pointer 0 and no \<open>FreeProcessingResult\<close> call, and result 0 is still
  allocated when \<open>apply_ducking\<close> returns.
\<close>

theorem ducking_result_leaked_on_read_error:
  "fst (apply_ducking (example_manager 1) example_main example_sidechain example_dparams
     example_world) = example_main
   \<and> trace (snd (apply_ducking (example_manager 1) example_main example_sidechain
        example_dparams example_world))
      = [ProcessDucking_call [2, 4] 2 44100 [2, 3] 2 22050 example_dparams
           (Some (0, 3, [1, 2, 0]))]
   \<and> live_results (snd (apply_ducking (example_manager 1) example_main example_sidechain
        example_dparams example_world)) = [0]
   \<and> FreeProcessingResult_call 0
        \<notin> set (trace (snd (apply_ducking (example_manager 1) example_main example_sidechain
            example_dparams example_world)))"
  by (simp add: example_defs node_defs Let_def upt_rec)






text \<open>
  Claim C9. For a batch element with more than one sidechain channel the control signal
  is, sample by sample, the sum over the channels divided by the number of channels; with
  one channel it is that channel. Every \<open>ProcessDucking\<close> call that \<open>apply_ducking\<close> makes
  for a channel of batch element \<open>b\<close> passes the control signal of \<open>b\<close>: the calls made are
  an initial part of the sequence that has, for each (batch, main channel) pair in the
  order of the loops, the main channel and the control signal of its batch element.
  (Sums and quotients are those of the reals.)
\<close>

theorem sidechain_passed_as_mean:
  assumes "waveform ma < n_tensors w" and "waveform sa < n_tensors w"
  shows
    "(b < length Tsc \<and> 1 < length (Tsc ! b) \<longrightarrow>
        sidechain_mono Tsc b =
          Inr (map (\<lambda>i. (\<Sum>c<length (Tsc ! b). Tsc ! b ! c ! i) / real (length (Tsc ! b)))
                 [0..<length (Tsc ! b ! 0)]))
     \<and> (b < length Tsc \<and> length (Tsc ! b) = 1 \<longrightarrow> sidechain_mono Tsc b = Inr (Tsc ! b ! 0))
     \<and> (\<exists>ys. ducking_calls (trace (snd (apply_ducking m ma sa dp w)))
                = ducking_calls (trace w) @ ys
            \<and> prefix ys (expected_ducking_calls (tensors w (waveform ma))
                           (tensors w (waveform sa)) (sample_rate ma) (sample_rate sa) dp)
            \<and> (\<forall>x\<in>set ys. \<exists>bc s.
                  in_shape (shape (tensors w (waveform ma))) bc
                  \<and> sidechain_mono (tensors w (waveform sa)) (fst bc) = Inr s
                  \<and> x = ducking_call_args (tensors w (waveform ma)) (sample_rate ma)
                          (sample_rate sa) dp s bc))"
proof (intro conjI impI)
  assume "b < length Tsc \<and> 1 < length (Tsc ! b)"
  then show "sidechain_mono Tsc b =
          Inr (map (\<lambda>i. (\<Sum>c<length (Tsc ! b). Tsc ! b ! c ! i) / real (length (Tsc ! b)))
                 [0..<length (Tsc ! b ! 0)])"
    by (simp add: sidechain_mono_mean)
next
  assume "b < length Tsc \<and> length (Tsc ! b) = 1"
  then show "sidechain_mono Tsc b = Inr (Tsc ! b ! 0)" by (simp add: sidechain_mono_single)
next
  from apply_ducking_calls[OF assms, of m dp] obtain ys where
    y: "ducking_calls (trace (snd (apply_ducking m ma sa dp w))) = ducking_calls (trace w) @ ys"
    and p: "prefix ys (expected_ducking_calls (tensors w (waveform ma))
                           (tensors w (waveform sa)) (sample_rate ma) (sample_rate sa) dp)"
    by blast
  have "\<forall>x\<in>set ys. \<exists>bc s.
                  in_shape (shape (tensors w (waveform ma))) bc
                  \<and> sidechain_mono (tensors w (waveform sa)) (fst bc) = Inr s
                  \<and> x = ducking_call_args (tensors w (waveform ma)) (sample_rate ma)
                          (sample_rate sa) dp s bc"
  proof
    fix x assume "x \<in> set ys"
    with p have "x \<in> set (expected_ducking_calls (tensors w (waveform ma))
                           (tensors w (waveform sa)) (sample_rate ma) (sample_rate sa) dp)"
      using set_mono_prefix by blast
    then show "\<exists>bc s.
                  in_shape (shape (tensors w (waveform ma))) bc
                  \<and> sidechain_mono (tensors w (waveform sa)) (fst bc) = Inr s
                  \<and> x = ducking_call_args (tensors w (waveform ma)) (sample_rate ma)
                          (sample_rate sa) dp s bc"
      by (rule set_expected_ducking_calls)
  qed
  with y p show "\<exists>ys. ducking_calls (trace (snd (apply_ducking m ma sa dp w)))
                = ducking_calls (trace w) @ ys
            \<and> prefix ys (expected_ducking_calls (tensors w (waveform ma))
                           (tensors w (waveform sa)) (sample_rate ma) (sample_rate sa) dp)
            \<and> (\<forall>x\<in>set ys. \<exists>bc s.
                  in_shape (shape (tensors w (waveform ma))) bc
                  \<and> sidechain_mono (tensors w (waveform sa)) (fst bc) = Inr s
                  \<and> x = ducking_call_args (tensors w (waveform ma)) (sample_rate ma)
                          (sample_rate sa) dp s bc)"
    by blast
qed


theorem sidechain_passed_as_mean_witness:
  "waveform example_main < n_tensors example_world
   \<and> waveform example_sidechain < n_tensors example_world
   \<and> (0::nat) < length [[[1, 1], [3, 5 :: real]]] \<and> 1 < length ([[[1, 1], [3, 5 :: real]]] ! 0)
   \<and> sidechain_mono [[[1, 1], [3, 5]]] 0 = Inr [2, 3]
   \<and> length ([[[7, 9 :: real]]] ! 0) = 1
   \<and> sidechain_mono [[[7, 9]]] 0 = Inr [7, 9]
   \<and> ducking_calls (trace (snd (apply_ducking (example_manager 0) example_main
        example_sidechain example_dparams example_world)))
      = [([2, 4], 2, 44100, [2, 3], 2, 22050, example_dparams),
         ([6, 8], 2, 44100, [2, 3], 2, 22050, example_dparams)]"
proof -
  have r: "waveform example_main < n_tensors example_world"
    "waveform example_sidechain < n_tensors example_world"
    by (simp_all add: example_main_def example_sidechain_def example_world_def)
  have h1: "(0::nat) < length [[[1, 1], [3, 5 :: real]]] \<and> 1 < length ([[[1, 1], [3, 5 :: real]]] ! 0)"
    by simp
  have h2: "(0::nat) < length [[[7, 9 :: real]]] \<and> length ([[[7, 9 :: real]]] ! 0) = 1" by simp
  have s: "(\<Sum>c<length ([[[1, 1], [3, 5 :: real]]] ! 0). [[[1, 1], [3, 5 :: real]]] ! 0 ! c ! i)
             = [1, 1 :: real] ! i + [3, 5 :: real] ! i" for i
    by (simp add: lessThan_Suc numeral_2_eq_2 add.commute)
  from sidechain_passed_as_mean[OF r, of 0 "[[[1, 1], [3, 5]]]", THEN conjunct1, THEN mp, OF h1]
  have m1: "sidechain_mono [[[1, 1], [3, 5]]] 0 = Inr [2, 3]"
    unfolding s by (simp add: upt_rec)
  from sidechain_passed_as_mean[OF r, of 0 "[[[7, 9]]]", THEN conjunct2, THEN conjunct1, THEN mp,
      OF h2]
  have m2: "sidechain_mono [[[7, 9]]] 0 = Inr [7, 9]" by simp
  have c: "ducking_calls (trace (snd (apply_ducking (example_manager 0) example_main
        example_sidechain example_dparams example_world)))
      = [([2, 4], 2, 44100, [2, 3], 2, 22050, example_dparams),
         ([6, 8], 2, 44100, [2, 3], 2, 22050, example_dparams)]"
    by (simp add: example_defs node_defs Let_def upt_rec)
  show ?thesis using r h1 h2 m1 m2 c by (intro conjI) simp_all
qed

text \<open>
  Claim C4. In \<open>apply_compression\<close> a channel with no samples is skipped: the loop body
  leaves everything as it is, no \<open>ProcessCompressor\<close> call of the node has an empty
  buffer, and the channel is empty in the returned waveform. In \<open>apply_ducking\<close> a
  sidechain with no samples gives the empty control buffer, no exception; a main channel
  with no samples is empty in the returned waveform, on every path; and no exception
  reaches the outer handler as long as the sidechain has a batch element with a channel
  for every batch element of the main waveform. (Both nodes are total functions into an
  audio: every exception of the model is handled inside \<open>apply_ducking\<close>.)
\<close>

theorem empty_input_is_noop:
  assumes "loaded m" and "lib m = Some l"
  shows
    "(channel (tensors w t) (b, c) = [] \<longrightarrow> compress_channel m cp sr t b c w = w)
     \<and> (\<exists>evs. trace (snd (apply_compression m a cp w)) = trace w @ evs
            \<and> (\<forall>buf len r q aft. ProcessCompressor_call buf len r q aft \<in> set evs \<longrightarrow> buf \<noteq> []))
     \<and> (in_shape (shape (tensors w (waveform a))) bc \<and> channel (tensors w (waveform a)) bc = []
          \<longrightarrow> channel (tensors (snd (apply_compression m a cp w))
                         (waveform (fst (apply_compression m a cp w)))) bc = [])
     \<and> (k < length Tsc \<and> Tsc ! k \<noteq> [] \<and> (\<forall>ch\<in>set (Tsc ! k). ch = [])
          \<longrightarrow> sidechain_mono Tsc k = Inr [])
     \<and> (in_shape (shape (tensors w (waveform ma))) bc \<and> channel (tensors w (waveform ma)) bc = []
          \<longrightarrow> channel (tensors (snd (apply_ducking m ma sa dp w))
                         (waveform (fst (apply_ducking m ma sa dp w)))) bc = [])
     \<and> (waveform sa < n_tensors w
          \<and> (\<forall>i<length (tensors w (waveform ma)).
                i < length (tensors w (waveform sa)) \<and> tensors w (waveform sa) ! i \<noteq> [])
          \<longrightarrow> fst (fst (apply_ducking_try m ma sa dp w)) \<noteq> Some (Raised e))"
proof (intro conjI impI)
  assume "channel (tensors w t) (b, c) = []"
  then show "compress_channel m cp sr t b c w = w" by (rule compress_channel_empty)
next
  let ?evs = "map (compressor_event (sample_rate a) cp (tensors w (waveform a))
                (tensors (snd (apply_compression m a cp w))
                   (waveform (fst (apply_compression m a cp w)))))
           (filter (\<lambda>bc. channel (tensors w (waveform a)) bc \<noteq> [])
              (channel_indices (shape (tensors w (waveform a)))))"
  have "trace (snd (apply_compression m a cp w)) = trace w @ ?evs"
    by (rule apply_compression_trace[OF assms])
  moreover have "\<forall>buf len r q aft. ProcessCompressor_call buf len r q aft \<in> set ?evs \<longrightarrow> buf \<noteq> []"
    by (auto simp: compressor_event_def)
  ultimately show "\<exists>evs. trace (snd (apply_compression m a cp w)) = trace w @ evs
            \<and> (\<forall>buf len r q aft. ProcessCompressor_call buf len r q aft \<in> set evs \<longrightarrow> buf \<noteq> [])"
    by blast
next
  assume "in_shape (shape (tensors w (waveform a))) bc \<and> channel (tensors w (waveform a)) bc = []"
  then show "channel (tensors (snd (apply_compression m a cp w))
                         (waveform (fst (apply_compression m a cp w)))) bc = []"
    using shape_eq_empty_channel[OF apply_compression_shape] by blast
next
  assume "k < length Tsc \<and> Tsc ! k \<noteq> [] \<and> (\<forall>ch\<in>set (Tsc ! k). ch = [])"
  then show "sidechain_mono Tsc k = Inr []" by (simp add: sidechain_mono_empty)
next
  assume "in_shape (shape (tensors w (waveform ma))) bc
            \<and> channel (tensors w (waveform ma)) bc = []"
  then show "channel (tensors (snd (apply_ducking m ma sa dp w))
                         (waveform (fst (apply_ducking m ma sa dp w)))) bc = []"
    using shape_eq_empty_channel[OF apply_ducking_shape] by blast
next
  assume h: "waveform sa < n_tensors w
          \<and> (\<forall>i<length (tensors w (waveform ma)).
                i < length (tensors w (waveform sa)) \<and> tensors w (waveform sa) ! i \<noteq> [])"
  show "fst (fst (apply_ducking_try m ma sa dp w)) \<noteq> Some (Raised e)"
  proof
    assume "fst (fst (apply_ducking_try m ma sa dp w)) = Some (Raised e)"
    from apply_ducking_try_Raised[OF conjunct1[OF h] this] obtain i where
      i: "i < length (tensors w (waveform ma))"
      and bad: "sidechain_mono (tensors w (waveform sa)) i = Inl e" by blast
    from h i have "i < length (tensors w (waveform sa))" "tensors w (waveform sa) ! i \<noteq> []"
      by simp_all
    from sidechain_mono_ok[OF this] bad show False by simp
  qed
qed

theorem empty_input_is_noop_witness:
  "loaded (example_manager 0) \<and> lib (example_manager 0) = Some (example_lib 0)
   \<and> channel (tensors example_world 2) (0, 0) = []
   \<and> compress_channel (example_manager 0) example_cparams 44100 2 0 0 example_world
       = example_world
   \<and> trace (snd (apply_compression (example_manager 0) example_empty example_cparams
        example_world)) = []
   \<and> in_shape (shape (tensors example_world (waveform example_empty))) (0, 0)
   \<and> channel (tensors (snd (apply_compression (example_manager 0) example_empty
        example_cparams example_world))
        (waveform (fst (apply_compression (example_manager 0) example_empty example_cparams
          example_world)))) (0, 0) = []
   \<and> sidechain_mono [[[]]] 0 = Inr []
   \<and> channel (tensors (snd (apply_ducking (example_manager 0) example_empty example_empty
        example_dparams example_world))
        (waveform (fst (apply_ducking (example_manager 0) example_empty example_empty
          example_dparams example_world)))) (0, 0) = []
   \<and> waveform example_empty < n_tensors example_world
   \<and> length (tensors example_world (waveform example_empty)) = 1
   \<and> tensors example_world (waveform example_empty) ! 0 \<noteq> []
   \<and> fst (fst (apply_ducking_try (example_manager 0) example_empty example_empty
        example_dparams example_world)) \<noteq> Some (Raised IndexError)"
proof -
  have l: "loaded (example_manager 0)" "lib (example_manager 0) = Some (example_lib 0)"
    by (simp_all add: example_manager_def)
  note th = empty_input_is_noop[OF l, of example_world 2 0 0 example_cparams 44100
      example_empty "(0, 0)" 0 "[[[]]]" example_empty example_empty example_dparams IndexError]
  have e: "channel (tensors example_world 2) (0, 0) = []"
    by (simp add: example_world_def channel_def)
  have v: "waveform example_empty = 2" "tensors example_world 2 = [[[]]]"
    "n_tensors example_world = 3" "trace example_world = []"
    by (simp_all add: example_empty_def example_world_def)
  have i: "in_shape (shape (tensors example_world (waveform example_empty))) (0, 0)"
    unfolding v by (simp add: in_shape_def shape_def)
  have t: "trace (snd (apply_compression (example_manager 0) example_empty example_cparams
        example_world)) = []"
    by (simp add: example_defs node_defs Let_def upt_rec)
  have s: "(0::nat) < length [[[] :: sample list]] \<and> [[[] :: sample list]] ! 0 \<noteq> []
             \<and> (\<forall>ch\<in>set ([[[] :: sample list]] ! 0). ch = [])"
    by simp
  have q: "waveform example_empty < n_tensors example_world
          \<and> (\<forall>i<length (tensors example_world (waveform example_empty)).
                i < length (tensors example_world (waveform example_empty))
                \<and> tensors example_world (waveform example_empty) ! i \<noteq> [])"
    unfolding v by simp
  have c1: "compress_channel (example_manager 0) example_cparams 44100 2 0 0 example_world
       = example_world"
    using th[THEN conjunct1] e by blast
  have c3: "channel (tensors (snd (apply_compression (example_manager 0) example_empty
        example_cparams example_world))
        (waveform (fst (apply_compression (example_manager 0) example_empty example_cparams
          example_world)))) (0, 0) = []"
    using th[THEN conjunct2, THEN conjunct2, THEN conjunct1] i e unfolding v by blast
  have c4: "sidechain_mono [[[]]] 0 = Inr []"
    using th[THEN conjunct2, THEN conjunct2, THEN conjunct2, THEN conjunct1] s by blast
  have c5: "channel (tensors (snd (apply_ducking (example_manager 0) example_empty example_empty
        example_dparams example_world))
        (waveform (fst (apply_ducking (example_manager 0) example_empty example_empty
          example_dparams example_world)))) (0, 0) = []"
    using th[THEN conjunct2, THEN conjunct2, THEN conjunct2, THEN conjunct2, THEN conjunct1]
      i e unfolding v by blast
  have c6: "fst (fst (apply_ducking_try (example_manager 0) example_empty example_empty
        example_dparams example_world)) \<noteq> Some (Raised IndexError)"
    using th[THEN conjunct2, THEN conjunct2, THEN conjunct2, THEN conjunct2, THEN conjunct2] q
    by blast
  show ?thesis
    using l e c1 t i c3 c4 c5 c6 unfolding v by (intro conjI) simp_all
qed

end
